theory Spec2Isabelle
  imports Complex_Main "HOL-Library.AList" "HOL-Library.Product_Lexorder"
begin

section \<open>Data model\<close>

text \<open>
  Amounts (shares, prices, fees, rates) are Python numbers read from JSON. They are modelled as
  exact reals: every equation below is an equation of exact arithmetic, which the floating-point
  program satisfies up to rounding.

  A transaction date is the string \<^verbatim>\<open>dd-mm-YYYY\<close>; the model keeps its three numbers
  (day, month, year) and takes the string to be well formed. \<open>strptime\<close> is
  \<^verbatim>\<open>datetime.strptime(x['date'], "%d-%m-%Y")\<close>: the value the source sorts and compares by,
  a \<^verbatim>\<open>datetime\<close> at midnight, ordered by year, then month, then day.
\<close>

type_synonym date = "nat \<times> nat \<times> nat"

type_synonym datetime = "nat \<times> nat \<times> nat"

fun strptime :: "date \<Rightarrow> datetime" where
  "strptime (d, m, y) = (y, m, d)"

text \<open>
  \<^verbatim>\<open>transaction['type'].lower()\<close> is compared with \<^verbatim>\<open>'buy'\<close> and \<^verbatim>\<open>'sell'\<close> only:
  \<open>Buy\<close> and \<open>Sell\<close> stand for the strings that lower-case to these, \<open>Other\<close> for every
  other string (a dividend, for instance).
\<close>

datatype trans_type = Buy | Sell | Other

text \<open>
  A transaction of the ledger is a JSON object. The replay reads \<^verbatim>\<open>symbol\<close>, \<^verbatim>\<open>shares\<close>,
  \<^verbatim>\<open>price\<close>, \<^verbatim>\<open>type\<close>, \<^verbatim>\<open>date\<close> and \<^verbatim>\<open>name\<close> by subscript: an object without one of
  them stops the replay with \<open>KeyError\<close> and leaves no holdings to speak of, so the
  transactions of the ledger carry them all. \<^verbatim>\<open>currency\<close> and \<^verbatim>\<open>fee\<close> are read with
  \<^verbatim>\<open>.get\<close> and a default, so these two may be absent.
\<close>

record transaction =
  t_symbol :: string
  t_shares :: real
  t_price :: real
  t_type :: trans_type
  t_date :: date
  t_currency :: "string option"
  t_name :: string
  t_fee :: "real option"

text \<open>A lot is the tuple \<^verbatim>\<open>(shares, price, date)\<close> of the source.\<close>

type_synonym lot = "real \<times> real \<times> date"

record holding =
  h_name :: string
  lots :: "lot list"
  total_shares :: real
  weighted_avg_cost :: real
  total_cost :: real
  sector :: string
  h_currency :: string

text \<open>
  The holdings dictionary is a \<^verbatim>\<open>defaultdict\<close>: an association list in insertion order, and a
  read of a missing symbol yields (and inserts) the default holding.
\<close>

type_synonym holdings = "(string \<times> holding) list"

definition default_holding :: holding where
  "default_holding =
     \<lparr>h_name = [], lots = [], total_shares = 0, weighted_avg_cost = 0, total_cost = 0,
      sector = ''Unknown'', h_currency = ''$''\<rparr>"

definition get_holding :: "holdings \<Rightarrow> string \<Rightarrow> holding" where
  "get_holding holdings_dict symbol =
     (case map_of holdings_dict symbol of None \<Rightarrow> default_holding | Some h \<Rightarrow> h)"

section \<open>The FIFO ledger: \<^verbatim>\<open>load_portfolio_data\<close>\<close>

text \<open>\<^verbatim>\<open>calculate_totals\<close>: the loop over the lots, then the three assignments.\<close>

definition calculate_totals :: "holding \<Rightarrow> holding" where
  "calculate_totals symbol_data =
     (let (shares_sum, cost_sum) =
            fold (\<lambda>(shares, price, _) (total_shares, total_cost).
                    (total_shares + shares, total_cost + shares * price))
                 (lots symbol_data) (0, 0)
      in symbol_data
           \<lparr>total_shares := shares_sum,
            total_cost := cost_sum,
            weighted_avg_cost := (if shares_sum > 0 then cost_sum / shares_sum else 0)\<rparr>)"

text \<open>
  The \<^verbatim>\<open>while remaining_to_sell > 0 and lots\<close> loop of a Sell, on the queue of lots. The loop
  ends when the queue is empty, whatever remains to sell; no branch raises.
\<close>

fun sell_lots :: "real \<Rightarrow> lot list \<Rightarrow> lot list" where
  "sell_lots remaining_to_sell [] = []"
| "sell_lots remaining_to_sell ((lot_shares, lot_price, lot_date) # rest) =
     (if remaining_to_sell > 0 then
        (if lot_shares \<le> remaining_to_sell
         then sell_lots (remaining_to_sell - lot_shares) rest
         else (lot_shares - remaining_to_sell, lot_price, lot_date) # rest)
      else (lot_shares, lot_price, lot_date) # rest)"

text \<open>
  The body of the \<^verbatim>\<open>for transaction in transactions_list\<close> loop: what the transaction
  does to the holding of its symbol (\<open>apply_transaction\<close>), then \<^verbatim>\<open>calculate_totals\<close> on
  that holding, stored back under the symbol.
\<close>

definition apply_transaction :: "holding \<Rightarrow> transaction \<Rightarrow> holding" where
  "apply_transaction h transaction =
     (case t_type transaction of
        Buy \<Rightarrow>
          h\<lparr>lots := lots h @ [(t_shares transaction, t_price transaction, t_date transaction)],
            h_name := t_name transaction,
            h_currency := (case t_currency transaction of None \<Rightarrow> ''$'' | Some c \<Rightarrow> c)\<rparr>
      | Sell \<Rightarrow> h\<lparr>lots := sell_lots (t_shares transaction) (lots h)\<rparr>
      | Other \<Rightarrow> h)"

definition process_transaction :: "holdings \<Rightarrow> transaction \<Rightarrow> holdings" where
  "process_transaction holdings_dict transaction =
     (let symbol = t_symbol transaction
      in AList.update symbol
           (calculate_totals (apply_transaction (get_holding holdings_dict symbol) transaction))
           holdings_dict)"

text \<open>The whole loop, and \<^verbatim>\<open>process_transactions\<close>: the loop, then the pruning comprehension.\<close>

definition replay :: "holdings \<Rightarrow> transaction list \<Rightarrow> holdings" where
  "replay holdings_dict transactions_list =
     fold (\<lambda>transaction acc. process_transaction acc transaction) transactions_list holdings_dict"

definition process_transactions :: "holdings \<Rightarrow> transaction list \<Rightarrow> holdings" where
  "process_transactions holdings_dict transactions_list =
     filter (\<lambda>(k, v). total_shares v > 0) (replay holdings_dict transactions_list)"

section \<open>Errors of the Python run time\<close>

text \<open>
  No function modelled here has a \<^verbatim>\<open>raise\<close> statement. What can stop one of them is an
  exception of the interpreter: a subscript of a missing key (\<open>KeyError\<close>), a product of a
  number and a dictionary (\<open>TypeError\<close>), a \<^verbatim>\<open>.get\<close> on a number (\<open>AttributeError\<close>).
\<close>

datatype py_error = KeyError | TypeError | AttributeError

section \<open>The sell analyzer: \<^verbatim>\<open>generate_sell_transaction_analysis.py\<close>\<close>

text \<open>
  A transaction object of the portfolio file, as the analyzer reads it. Its \<^verbatim>\<open>symbol\<close>,
  \<^verbatim>\<open>type\<close> and \<^verbatim>\<open>date\<close> say what it is and are present. \<^verbatim>\<open>shares\<close> and \<^verbatim>\<open>price\<close> are
  read by subscript from every object, whatever its type, and \<^verbatim>\<open>currency\<close> by subscript
  from a Sell: an object without the key (a dividend without shares, for instance) raises
  \<open>KeyError\<close> there. \<^verbatim>\<open>fee\<close> is read with \<^verbatim>\<open>.get\<close>.
\<close>

record json_transaction =
  j_symbol :: string
  j_shares :: "real option"
  j_price :: "real option"
  j_type :: trans_type
  j_date :: date
  j_currency :: "string option"
  j_fee :: "real option"

text \<open>
  An account of the portfolio file. \<^verbatim>\<open>analyze_sell_transactions\<close> reads only the
  \<^verbatim>\<open>accounts\<close> of its argument, so the model takes the list of accounts.
\<close>

record account =
  account_name :: string
  a_currency :: string
  a_transactions :: "json_transaction list"

text \<open>
  \<^verbatim>\<open>transaction.copy()\<close> with the keys \<^verbatim>\<open>account\<close> and \<^verbatim>\<open>account_currency\<close> added: the
  copied transaction is the field \<open>tx\<close>.
\<close>

record transaction_with_account =
  tx :: json_transaction
  tx_account :: string
  account_currency :: string

definition collect_transactions :: "account list \<Rightarrow> transaction_with_account list" where
  "collect_transactions accounts =
     concat (map (\<lambda>account.
               map (\<lambda>transaction.
                      \<lparr>tx = transaction, tx_account = account_name account,
                       account_currency = a_currency account\<rparr>)
                   (a_transactions account))
             accounts)"

text \<open>\<^verbatim>\<open>all_transactions.sort(key=...)\<close>: a stable sort by the parsed date.\<close>

definition sort_by_date :: "transaction_with_account list \<Rightarrow> transaction_with_account list" where
  "sort_by_date all_transactions = sort_key (\<lambda>x. strptime (j_date (tx x))) all_transactions"

text \<open>
  The grouping loop. \<^verbatim>\<open>symbol_transactions\<close> is a dictionary in insertion order: a new
  symbol goes to the end, a transaction to the end of the list of its symbol.
\<close>

definition add_to_group ::
  "(string \<times> transaction_with_account list) list \<Rightarrow> transaction_with_account
   \<Rightarrow> (string \<times> transaction_with_account list) list" where
  "add_to_group symbol_transactions transaction =
     (let symbol = j_symbol (tx transaction);
          present = (case map_of symbol_transactions symbol of None \<Rightarrow> [] | Some l \<Rightarrow> l)
      in AList.update symbol (present @ [transaction]) symbol_transactions)"

definition group_by_symbol ::
  "transaction_with_account list \<Rightarrow> (string \<times> transaction_with_account list) list" where
  "group_by_symbol all_transactions =
     fold (\<lambda>transaction acc. add_to_group acc transaction) all_transactions []"

text \<open>A buy lot of the analyzer is the tuple \<^verbatim>\<open>(shares, price, date, account)\<close>.\<close>

type_synonym buy_lot = "real \<times> real \<times> date \<times> string"

text \<open>
  The \<^verbatim>\<open>while remaining_to_sell > 0 and temp_queue\<close> loop of a Sell. It walks the copy
  \<open>temp_queue\<close> and updates \<open>buy_queue\<close> beside it; it returns the queue, the cost basis and
  the shares processed. After a partial lot \<open>remaining_to_sell\<close> is 0 and the next test of
  the loop ends it.
\<close>

fun consume_lots ::
  "real \<Rightarrow> buy_lot list \<Rightarrow> buy_lot list \<Rightarrow> real \<Rightarrow> real \<Rightarrow> buy_lot list \<times> real \<times> real" where
  "consume_lots remaining_to_sell [] buy_queue total_cost_basis shares_processed =
     (buy_queue, total_cost_basis, shares_processed)"
| "consume_lots remaining_to_sell ((lot_shares, lot_price, lot_date, lot_account) # temp_queue)
       buy_queue total_cost_basis shares_processed =
     (if remaining_to_sell > 0 then
        (if lot_shares \<le> remaining_to_sell then
           consume_lots (remaining_to_sell - lot_shares) temp_queue
             (if buy_queue \<noteq> [] then tl buy_queue else buy_queue)
             (total_cost_basis + lot_shares * lot_price)
             (shares_processed + lot_shares)
         else
           consume_lots 0 temp_queue
             (if buy_queue \<noteq> []
              then buy_queue[0 := (lot_shares - remaining_to_sell, lot_price, lot_date, lot_account)]
              else buy_queue)
             (total_cost_basis + remaining_to_sell * lot_price)
             (shares_processed + remaining_to_sell))
      else (buy_queue, total_cost_basis, shares_processed))"

record sell_result =
  r_symbol :: string
  sell_date :: date
  r_account :: string
  shares_sold :: real
  sell_price :: real
  gross_proceeds :: real
  fees :: real
  net_proceeds :: real
  r_weighted_avg_cost :: real
  total_cost_basis :: real
  realized_pnl :: real
  realized_pnl_pct :: real
  r_currency :: string

text \<open>
  The record appended for a Sell, from its shares and price and from the cost basis and the
  shares processed of the loop. \<^verbatim>\<open>transaction['currency']\<close> is a subscript: a Sell without
  a currency raises \<open>KeyError\<close>.
\<close>

definition sell_record ::
  "string \<Rightarrow> transaction_with_account \<Rightarrow> real \<Rightarrow> real \<Rightarrow> real \<Rightarrow> real
   \<Rightarrow> py_error + sell_result" where
  "sell_record symbol transaction shares price cost_basis shares_processed =
     (let fee = (case j_fee (tx transaction) of None \<Rightarrow> 0 | Some f \<Rightarrow> f);
          weighted_avg_cost = (if shares_processed > 0 then cost_basis / shares_processed else 0);
          gross_proceeds = shares * price;
          net_proceeds = gross_proceeds - fee;
          realized_pnl = net_proceeds - cost_basis;
          realized_pnl_pct = (if cost_basis > 0 then realized_pnl / cost_basis * 100 else 0)
      in case j_currency (tx transaction) of
           None \<Rightarrow> Inl KeyError
         | Some currency \<Rightarrow>
             Inr \<lparr>r_symbol = symbol, sell_date = j_date (tx transaction),
                  r_account = tx_account transaction, shares_sold = shares, sell_price = price,
                  gross_proceeds = gross_proceeds, fees = fee, net_proceeds = net_proceeds,
                  r_weighted_avg_cost = weighted_avg_cost, total_cost_basis = cost_basis,
                  realized_pnl = realized_pnl, realized_pnl_pct = realized_pnl_pct,
                  r_currency = currency\<rparr>)"

text \<open>
  The loop over the transactions of one symbol, from the queue \<open>buy_queue\<close>; it returns the
  records of the symbol's Sells, in the order of the transactions. The body first reads
  \<^verbatim>\<open>transaction['shares']\<close> and \<^verbatim>\<open>transaction['price']\<close>, for a transaction of any type.
\<close>

fun analyze_symbol ::
  "string \<Rightarrow> transaction_with_account list \<Rightarrow> buy_lot list \<Rightarrow> py_error + sell_result list" where
  "analyze_symbol symbol [] buy_queue = Inr []"
| "analyze_symbol symbol (transaction # rest) buy_queue =
     (case j_shares (tx transaction) of
        None \<Rightarrow> Inl KeyError
      | Some shares \<Rightarrow>
          (case j_price (tx transaction) of
             None \<Rightarrow> Inl KeyError
           | Some price \<Rightarrow>
               (case j_type (tx transaction) of
                  Buy \<Rightarrow>
                    analyze_symbol symbol rest
                      (buy_queue @ [(shares, price, j_date (tx transaction),
                                     tx_account transaction)])
                | Sell \<Rightarrow>
                    (case consume_lots shares buy_queue buy_queue 0 0 of
                       (buy_queue', cost_basis, shares_processed) \<Rightarrow>
                         (case sell_record symbol transaction shares price cost_basis
                                 shares_processed of
                            Inl e \<Rightarrow> Inl e
                          | Inr r \<Rightarrow>
                              (case analyze_symbol symbol rest buy_queue' of
                                 Inl e \<Rightarrow> Inl e
                               | Inr rs \<Rightarrow> Inr (r # rs))))
                | Other \<Rightarrow> analyze_symbol symbol rest buy_queue)))"

text \<open>
  The loop over the symbols: every symbol starts from an empty queue and appends its records
  to \<^verbatim>\<open>sell_analysis_results\<close>.
\<close>

fun analyze_groups ::
  "(string \<times> transaction_with_account list) list \<Rightarrow> py_error + sell_result list" where
  "analyze_groups [] = Inr []"
| "analyze_groups ((symbol, transactions) # rest) =
     (case analyze_symbol symbol transactions [] of
        Inl e \<Rightarrow> Inl e
      | Inr rs \<Rightarrow>
          (case analyze_groups rest of
             Inl e \<Rightarrow> Inl e
           | Inr rs' \<Rightarrow> Inr (rs @ rs')))"

definition analyze_sell_transactions :: "account list \<Rightarrow> py_error + sell_result list" where
  "analyze_sell_transactions accounts =
     analyze_groups (group_by_symbol (sort_by_date (collect_transactions accounts)))"

text \<open>
  \<^verbatim>\<open>calculate_unrealized_pnl\<close>. \<open>current_prices\<close> is a dictionary from symbols to a price or
  \<^verbatim>\<open>None\<close>, and \<^verbatim>\<open>current_prices.get(symbol)\<close> is \<^verbatim>\<open>None\<close> for a missing symbol as well. The
  function adds six keys to each record: the model pairs the record with the six values.
\<close>

record sell_analysis =
  result :: sell_result
  current_price :: "real option"
  current_market_value :: "real option"
  current_net_proceeds :: "real option"
  unrealized_pnl :: "real option"
  unrealized_pnl_pct :: "real option"
  opportunity_difference :: "real option"

definition price_of :: "(string \<times> real option) list \<Rightarrow> string \<Rightarrow> real option" where
  "price_of current_prices symbol =
     (case map_of current_prices symbol of None \<Rightarrow> None | Some p \<Rightarrow> p)"

definition add_unrealized :: "(string \<times> real option) list \<Rightarrow> sell_result \<Rightarrow> sell_analysis" where
  "add_unrealized current_prices r =
     (case price_of current_prices (r_symbol r) of
        Some price \<Rightarrow>
          (let cost_basis = total_cost_basis r;
               market_value = shares_sold r * price;
               net = market_value - fees r;
               unrealized = net - cost_basis;
               unrealized_pct = (if cost_basis > 0 then unrealized / cost_basis * 100 else 0)
           in \<lparr>result = r, current_price = Some price, current_market_value = Some market_value,
               current_net_proceeds = Some net, unrealized_pnl = Some unrealized,
               unrealized_pnl_pct = Some unrealized_pct,
               opportunity_difference = Some (unrealized - realized_pnl r)\<rparr>)
      | None \<Rightarrow>
          \<lparr>result = r, current_price = None, current_market_value = None,
           current_net_proceeds = None, unrealized_pnl = None, unrealized_pnl_pct = None,
           opportunity_difference = None\<rparr>)"

definition calculate_unrealized_pnl ::
  "sell_result list \<Rightarrow> (string \<times> real option) list \<Rightarrow> sell_analysis list" where
  "calculate_unrealized_pnl sell_results current_prices =
     map (add_unrealized current_prices) sell_results"

section \<open>The currency converter\<close>

text \<open>
  Currency symbols outside ASCII are the byte strings of their UTF-8 encoding.
\<close>

definition euro_sign :: string where
  "euro_sign = [CHR 0xE2, CHR 0x82, CHR 0xAC]"

definition pound_sign :: string where
  "pound_sign = [CHR 0xC2, CHR 0xA3]"

definition yen_sign :: string where
  "yen_sign = [CHR 0xC2, CHR 0xA5]"

text \<open>
  The \<^verbatim>\<open>exchange_rates\<close> dictionary holds a rate under a currency key and, under the key
  \<^verbatim>\<open>EUR_RATES\<close>, the dictionary of the rates to EUR.
\<close>

datatype rate_entry = Rate real | Rates "(string \<times> real) list"

type_synonym exchange_rates = "(string \<times> rate_entry) list"

definition currency_map :: "(string \<times> string) list" where
  "currency_map =
     [(''$'', ''USD''), (euro_sign, ''EUR''), (''RON'', ''RON''), (pound_sign, ''GBP''),
      (yen_sign, ''JPY'')]"

text \<open>\<^verbatim>\<open>currency_map.get(from_currency, from_currency)\<close>\<close>

definition currency_code :: "string \<Rightarrow> string" where
  "currency_code from_currency =
     (case map_of currency_map from_currency of None \<Rightarrow> from_currency | Some code \<Rightarrow> code)"

text \<open>
  \<^verbatim>\<open>convert_to_usd\<close>. A value that is a number is falsy exactly when it is 0. The product of
  the value and the entry found raises \<open>TypeError\<close> when the entry is the dictionary of
  \<^verbatim>\<open>EUR_RATES\<close>.
\<close>

definition convert_to_usd :: "real \<Rightarrow> string \<Rightarrow> exchange_rates \<Rightarrow> py_error + real" where
  "convert_to_usd val from_currency exchange_rates =
     (if val = 0 then Inr 0
      else let code = currency_code from_currency
           in if code = ''USD'' then Inr val
              else (case map_of exchange_rates code of
                      None \<Rightarrow> Inr (val * 1)
                    | Some (Rate exchange_rate) \<Rightarrow> Inr (val * exchange_rate)
                    | Some (Rates _) \<Rightarrow> Inl TypeError))"

text \<open>
  \<^verbatim>\<open>convert_to_eur\<close>. \<^verbatim>\<open>exchange_rates.get('EUR_RATES', {})\<close> is the empty dictionary when
  the key is missing; \<^verbatim>\<open>.get\<close> on a number found there raises \<open>AttributeError\<close>.
\<close>

definition convert_to_eur :: "real \<Rightarrow> string \<Rightarrow> exchange_rates \<Rightarrow> py_error + real" where
  "convert_to_eur val from_currency exchange_rates =
     (if val = 0 then Inr 0
      else let code = currency_code from_currency
           in if code = ''EUR'' then Inr val
              else (case map_of exchange_rates ''EUR_RATES'' of
                      None \<Rightarrow> Inr (val * 1)
                    | Some (Rates eur_rates) \<Rightarrow>
                        Inr (val * (case map_of eur_rates code of None \<Rightarrow> 1 | Some r \<Rightarrow> r))
                    | Some (Rate _) \<Rightarrow> Inl AttributeError))"

text \<open>The static table of \<^verbatim>\<open>get_exchange_rates\<close>, used when no live rate is fetched.\<close>

definition static_exchange_rates :: exchange_rates where
  "static_exchange_rates =
     [(''USD'', Rate 1.0), (''EUR'', Rate 1.10), (''RON'', Rate 0.22), (pound_sign, Rate 1.25),
      (yen_sign, Rate 0.007),
      (''EUR_RATES'',
         Rates [(''USD'', 0.91), (''EUR'', 1.0), (''RON'', 0.20), (''GBP'', 1.14),
                (''JPY'', 0.0064)])]"

section \<open>The performance series: \<^verbatim>\<open>generate_investment_portfolio.py\<close>\<close>

text \<open>
  What these functions read of the processed portfolio dictionary: the transactions of every
  account, the current price of \<^verbatim>\<open>real_time_data\<close> (which may be \<^verbatim>\<open>None\<close>, or missing with
  its symbol) and the exchange rates.
\<close>

record portfolio_data =
  pd_accounts :: "(string \<times> transaction list) list"
  real_time_data :: "(string \<times> real option) list"
  pd_exchange_rates :: exchange_rates

text \<open>
  What they read of the world: the day of \<^verbatim>\<open>datetime.now()\<close> and \<^verbatim>\<open>get_historical_price\<close>,
  a lookup that answers a price or \<^verbatim>\<open>None\<close>. A \<^verbatim>\<open>datetime\<close> is (year, month, day): the
  transactions are dated at midnight, so a comparison with the present moment is a comparison
  with its day.
\<close>

record market =
  now :: datetime
  get_historical_price :: "string \<Rightarrow> datetime \<Rightarrow> real option"

text \<open>\<^verbatim>\<open>monthrange(year, month)[1]\<close>, the number of days of a month (1 to 12).\<close>

definition last_day_of :: "nat \<Rightarrow> nat \<Rightarrow> nat" where
  "last_day_of year month =
     (if month = 2
      then (if year mod 4 = 0 \<and> (year mod 100 \<noteq> 0 \<or> year mod 400 = 0) then 29 else 28)
      else if month = 4 \<or> month = 6 \<or> month = 9 \<or> month = 11 then 30 else 31)"

text \<open>
  The target date of a month and \<^verbatim>\<open>use_current_prices\<close>: the present for the current month,
  the last day of the month otherwise.
\<close>

definition target_of :: "market \<Rightarrow> nat \<Rightarrow> nat \<Rightarrow> datetime \<times> bool" where
  "target_of mk target_year target_month =
     (case now mk of (current_year, current_month, current_day) \<Rightarrow>
        if target_year = current_year \<and> target_month = current_month
        then (now mk, True)
        else ((target_year, target_month, last_day_of target_year target_month), False))"

text \<open>
  The price of a holding in the valuation loop, with the \<^verbatim>\<open>price_cache\<close> of the loop: the
  real-time price in the current month when the symbol has one (kept in the cache when it is
  truthy), otherwise the cached price, otherwise the historical price, otherwise the weighted
  average cost.
\<close>

definition holding_price ::
  "market \<Rightarrow> portfolio_data \<Rightarrow> datetime \<Rightarrow> bool \<Rightarrow> (string \<times> real) list \<Rightarrow> string \<Rightarrow> holding
   \<Rightarrow> real \<times> (string \<times> real) list" where
  "holding_price mk pd target_date use_current_prices price_cache symbol holding =
     (let real_time =
            (if use_current_prices
             then (case map_of (real_time_data pd) symbol of None \<Rightarrow> None | Some p \<Rightarrow> p)
             else None);
          price_cache1 =
            (case real_time of
               Some p \<Rightarrow> if p \<noteq> 0 then AList.update symbol p price_cache else price_cache
             | None \<Rightarrow> price_cache)
      in case real_time of
           Some p \<Rightarrow> (p, price_cache1)
         | None \<Rightarrow>
             (case map_of price_cache1 symbol of
                Some p \<Rightarrow> (p, price_cache1)
              | None \<Rightarrow>
                  (let p = (case get_historical_price mk symbol target_date of
                              Some hist_price \<Rightarrow> hist_price
                            | None \<Rightarrow> weighted_avg_cost holding)
                   in (p, AList.update symbol p price_cache1))))"

text \<open>
  The loop \<^verbatim>\<open>for symbol, holding in holdings.items()\<close>, with its three accumulators: the
  portfolio value, the price cache and \<^verbatim>\<open>holdings_gain_loss_list\<close>.
\<close>

fun value_holdings ::
  "market \<Rightarrow> portfolio_data \<Rightarrow> datetime \<Rightarrow> bool \<Rightarrow> exchange_rates \<Rightarrow> holdings
   \<Rightarrow> real \<Rightarrow> (string \<times> real) list \<Rightarrow> real list \<Rightarrow> py_error + real \<times> real list" where
  "value_holdings mk pd target_date use_current_prices rates [] portfolio_value price_cache
       gain_loss_list = Inr (portfolio_value, gain_loss_list)"
| "value_holdings mk pd target_date use_current_prices rates ((symbol, holding) # rest)
       portfolio_value price_cache gain_loss_list =
     (case holding_price mk pd target_date use_current_prices price_cache symbol holding of
        (price, price_cache') \<Rightarrow>
          (case convert_to_usd price (h_currency holding) rates of
             Inl e \<Rightarrow> Inl e
           | Inr price_usd \<Rightarrow>
               value_holdings mk pd target_date use_current_prices rates rest
                 (portfolio_value + total_shares holding * price_usd)
                 price_cache'
                 (if weighted_avg_cost holding > 0
                  then gain_loss_list
                       @ [(price - weighted_avg_cost holding) / weighted_avg_cost holding]
                  else gain_loss_list)))"

text \<open>
  The holdings at the target date: the transactions dated up to it, sorted by date and
  replayed. The replay in \<^verbatim>\<open>compute_portfolio_performance\<close> repeats the text of
  \<^verbatim>\<open>process_transactions\<close> (without the \<^verbatim>\<open>sector\<close> key, which nothing here reads).
\<close>

definition holdings_at :: "portfolio_data \<Rightarrow> datetime \<Rightarrow> holdings" where
  "holdings_at pd target_date =
     process_transactions []
       (sort_key (\<lambda>x. strptime (t_date x))
          (filter (\<lambda>transaction. strptime (t_date transaction) \<le> target_date)
             (concat (map snd (pd_accounts pd)))))"

record performance =
  p_date :: datetime
  portfolio_value :: real
  holdings_count :: nat
  avg_pct_gain_loss :: real

definition compute_portfolio_performance ::
  "market \<Rightarrow> portfolio_data \<Rightarrow> nat \<Rightarrow> nat \<Rightarrow> exchange_rates \<Rightarrow> py_error + performance" where
  "compute_portfolio_performance mk pd target_month target_year rates =
     (case target_of mk target_year target_month of
        (target_date, use_current_prices) \<Rightarrow>
          (let holdings = holdings_at pd target_date
           in case value_holdings mk pd target_date use_current_prices rates holdings 0 [] [] of
                Inl e \<Rightarrow> Inl e
              | Inr (total_value, gain_loss_list) \<Rightarrow>
                  Inr \<lparr>p_date = target_date,
                       portfolio_value = total_value,
                       holdings_count = length holdings,
                       avg_pct_gain_loss =
                         (if gain_loss_list \<noteq> []
                          then sum_list gain_loss_list / real (length gain_loss_list)
                          else 0)\<rparr>))"

text \<open>
  \<^verbatim>\<open>get_month_range_from_transactions\<close>: the oldest transaction date, then the months from
  its month to the current one.
\<close>

definition oldest_date :: "portfolio_data \<Rightarrow> datetime option" where
  "oldest_date pd =
     fold (\<lambda>transaction oldest.
             (case oldest of
                None \<Rightarrow> Some (strptime (t_date transaction))
              | Some d \<Rightarrow>
                  if strptime (t_date transaction) < d
                  then Some (strptime (t_date transaction)) else Some d))
          (concat (map snd (pd_accounts pd))) None"

function months_from :: "nat \<Rightarrow> nat \<Rightarrow> nat \<Rightarrow> nat \<Rightarrow> (nat \<times> nat) list" where
  "months_from current_year current_month year month =
     (if year < current_year \<or> (year = current_year \<and> month \<le> current_month)
      then (year, month)
           # (if month + 1 > 12
              then months_from current_year current_month (year + 1) 1
              else months_from current_year current_month year (month + 1))
      else [])"
  by pat_completeness auto
termination
  by (relation "measure (\<lambda>(cy, cm, y, m). (Suc cy - y) * 14 + (13 - m))") auto

declare months_from.simps [simp del]

definition get_month_range_from_transactions ::
  "market \<Rightarrow> portfolio_data \<Rightarrow> (nat \<times> nat) list" where
  "get_month_range_from_transactions mk pd =
     (case oldest_date pd of
        None \<Rightarrow> []
      | Some (year, month, day) \<Rightarrow>
          (case now mk of (current_year, current_month, current_day) \<Rightarrow>
             months_from current_year current_month year month))"

text \<open>
  \<^verbatim>\<open>create_performance_analysis\<close>: the values carried from month to month, and the row written
  for a month.
\<close>

record tracking =
  previous_avg_pct_gain_loss :: "real option"
  previous_sp500_price :: "real option"
  cumulative_factor :: real
  benchmark_factor :: real
  sp500_cache :: "((nat \<times> nat) \<times> real option) list"

record performance_row =
  row_month :: "nat \<times> nat"
  row_portfolio_value :: real
  monthly_return :: real
  sp500_monthly_return :: real
  outperformance :: real
  cumulative_return :: real
  benchmark_cumulative :: real
  alpha :: real

definition initial_tracking :: tracking where
  "initial_tracking =
     \<lparr>previous_avg_pct_gain_loss = None, previous_sp500_price = None, cumulative_factor = 1,
      benchmark_factor = 1, sp500_cache = []\<rparr>"

text \<open>\<^verbatim>\<open>get_sp500_price(target_date)\<close>\<close>

definition get_sp500_price :: "market \<Rightarrow> datetime \<Rightarrow> real option" where
  "get_sp500_price mk target_date = get_historical_price mk ''^GSPC'' target_date"

text \<open>
  The S and P 500 price of a month, through \<^verbatim>\<open>sp500_cache\<close> (keyed by year and month, as
  \<^verbatim>\<open>month_key\<close> is).
\<close>

definition sp500_lookup ::
  "market \<Rightarrow> ((nat \<times> nat) \<times> real option) list \<Rightarrow> nat \<Rightarrow> nat
   \<Rightarrow> real option \<times> ((nat \<times> nat) \<times> real option) list" where
  "sp500_lookup mk cache year month =
     (case map_of cache (year, month) of
        None \<Rightarrow>
          (let sp500_price = get_sp500_price mk (fst (target_of mk year month))
           in (sp500_price, AList.update (year, month) sp500_price cache))
      | Some sp500_price \<Rightarrow> (sp500_price, cache))"

text \<open>
  The body of the loop over the months. A number is truthy when it is not 0, \<^verbatim>\<open>None\<close> is
  falsy.
\<close>

definition month_step ::
  "market \<Rightarrow> portfolio_data \<Rightarrow> tracking \<Rightarrow> nat \<times> nat \<Rightarrow> py_error + performance_row \<times> tracking"
  where
  "month_step mk pd st ym =
     (case ym of (year, month) \<Rightarrow>
        (case compute_portfolio_performance mk pd month year (pd_exchange_rates pd) of
           Inl e \<Rightarrow> Inl e
         | Inr perf \<Rightarrow>
             (case sp500_lookup mk (sp500_cache st) year month of
                (sp500_price, cache) \<Rightarrow>
                  (let avg = avg_pct_gain_loss perf;
                       monthly = (case previous_avg_pct_gain_loss st of
                                    Some previous \<Rightarrow> avg - previous
                                  | None \<Rightarrow> avg);
                       sp500_monthly =
                         (case previous_sp500_price st of
                            None \<Rightarrow> 0
                          | Some previous \<Rightarrow>
                              (case sp500_price of
                                 None \<Rightarrow> 0
                               | Some price \<Rightarrow>
                                   if previous \<noteq> 0 \<and> previous > 0 \<and> price \<noteq> 0
                                   then (price - previous) / previous else 0));
                       cumulative = cumulative_factor st * (1 + monthly);
                       benchmark = benchmark_factor st * (1 + sp500_monthly)
                   in Inr (\<lparr>row_month = (year, month),
                            row_portfolio_value = portfolio_value perf,
                            monthly_return = monthly,
                            sp500_monthly_return = sp500_monthly,
                            outperformance = monthly - sp500_monthly,
                            cumulative_return = cumulative - 1,
                            benchmark_cumulative = benchmark - 1,
                            alpha = (cumulative - 1) - (benchmark - 1)\<rparr>,
                           \<lparr>previous_avg_pct_gain_loss = Some avg,
                            previous_sp500_price =
                              (case sp500_price of
                                 None \<Rightarrow> previous_sp500_price st
                               | Some price \<Rightarrow>
                                   if price \<noteq> 0 then Some price else previous_sp500_price st),
                            cumulative_factor = cumulative,
                            benchmark_factor = benchmark,
                            sp500_cache = cache\<rparr>)))))"

text \<open>The loop over the months: the rows written, and the values carried at its end.\<close>

fun performance_rows ::
  "market \<Rightarrow> portfolio_data \<Rightarrow> tracking \<Rightarrow> (nat \<times> nat) list
   \<Rightarrow> py_error + performance_row list \<times> tracking" where
  "performance_rows mk pd st [] = Inr ([], st)"
| "performance_rows mk pd st (ym # months) =
     (case month_step mk pd st ym of
        Inl e \<Rightarrow> Inl e
      | Inr (row, st') \<Rightarrow>
          (case performance_rows mk pd st' months of
             Inl e \<Rightarrow> Inl e
           | Inr (rows, st'') \<Rightarrow> Inr (row # rows, st'')))"

definition create_performance_analysis ::
  "market \<Rightarrow> portfolio_data \<Rightarrow> py_error + performance_row list" where
  "create_performance_analysis mk pd =
     (case performance_rows mk pd initial_tracking (get_month_range_from_transactions mk pd) of
        Inl e \<Rightarrow> Inl e
      | Inr (rows, st) \<Rightarrow> Inr rows)"

section \<open>Vocabulary of the specification\<close>

text \<open>
  The sums the invariants speak of, written as the specification words them: the shares and the
  cost of a queue of lots, the shares bought and sold of a symbol in a transaction list.
\<close>

definition sum_shares :: "lot list \<Rightarrow> real" where
  "sum_shares ls = (\<Sum>(shares, price, d) \<leftarrow> ls. shares)"

definition sum_cost :: "lot list \<Rightarrow> real" where
  "sum_cost ls = (\<Sum>(shares, price, d) \<leftarrow> ls. shares * price)"

definition sum_buy_shares :: "string \<Rightarrow> transaction list \<Rightarrow> real" where
  "sum_buy_shares s ts = (\<Sum>t \<leftarrow> filter (\<lambda>t. t_type t = Buy \<and> t_symbol t = s) ts. t_shares t)"

definition sum_sell_shares :: "string \<Rightarrow> transaction list \<Rightarrow> real" where
  "sum_sell_shares s ts = (\<Sum>t \<leftarrow> filter (\<lambda>t. t_type t = Sell \<and> t_symbol t = s) ts. t_shares t)"

text \<open>
  No Sell asks for more shares than its symbol holds at that moment of the replay (nor for a
  negative number of shares).
\<close>

fun within_holdings :: "holdings \<Rightarrow> transaction list \<Rightarrow> bool" where
  "within_holdings hs [] = True"
| "within_holdings hs (t # ts) =
     ((t_type t = Sell \<longrightarrow>
         0 \<le> t_shares t \<and> t_shares t \<le> total_shares (get_holding hs (t_symbol t)))
      \<and> within_holdings (process_transaction hs t) ts)"

text \<open>The invariant of a holding, as the data model states it.\<close>

definition holding_invariant :: "holding \<Rightarrow> bool" where
  "holding_invariant h \<longleftrightarrow>
     total_shares h = sum_shares (lots h) \<and>
     total_cost h = sum_cost (lots h) \<and>
     weighted_avg_cost h = (if total_shares h = 0 then 0 else total_cost h / total_shares h)"

definition sound_holding :: "holding \<Rightarrow> bool" where
  "sound_holding h \<longleftrightarrow> (\<forall>l \<in> set (lots h). 0 \<le> fst l) \<and> holding_invariant h"

text \<open>
  A buy lot of the analyzer without its account is a lot of the ledger; the Sells of a list of
  transactions; the transactions of one symbol.
\<close>

definition strip_account :: "buy_lot \<Rightarrow> lot" where
  "strip_account l = (case l of (shares, price, d, a) \<Rightarrow> (shares, price, d))"

definition sells_of :: "transaction_with_account list \<Rightarrow> transaction_with_account list" where
  "sells_of txs = filter (\<lambda>x. j_type (tx x) = Sell) txs"

definition of_symbol :: "string \<Rightarrow> transaction_with_account list \<Rightarrow> transaction_with_account list" where
  "of_symbol s txs = filter (\<lambda>x. j_symbol (tx x) = s) txs"

text \<open>
  A transaction object carries the keys the analyzer reads by subscript: shares and price, and
  a currency when it is a Sell.
\<close>

definition carries_keys :: "json_transaction \<Rightarrow> bool" where
  "carries_keys t \<longleftrightarrow>
     j_shares t \<noteq> None \<and> j_price t \<noteq> None \<and> (j_type t = Sell \<longrightarrow> j_currency t \<noteq> None)"

text \<open>
  The distinct elements of a list in the order of their first appearance; the Sells of a list of
  transactions grouped by symbol, the symbols in the order of their first appearance; what
  identifies a Sell, in a transaction and in the record written for it.
\<close>

fun first_appearance :: "'a list \<Rightarrow> 'a list" where
  "first_appearance [] = []"
| "first_appearance (x # xs) = x # removeAll x (first_appearance xs)"

definition grouped_sells :: "transaction_with_account list \<Rightarrow> transaction_with_account list" where
  "grouped_sells xs =
     concat (map (\<lambda>s. sells_of (of_symbol s xs))
               (first_appearance (map (\<lambda>x. j_symbol (tx x)) xs)))"

definition sell_key ::
  "transaction_with_account \<Rightarrow> string \<times> date \<times> string \<times> real option \<times> real option" where
  "sell_key x = (j_symbol (tx x), j_date (tx x), tx_account x, j_shares (tx x), j_price (tx x))"

definition record_key ::
  "sell_result \<Rightarrow> string \<times> date \<times> string \<times> real option \<times> real option" where
  "record_key r =
     (r_symbol r, sell_date r, r_account r, Some (shares_sold r), Some (sell_price r))"

text \<open>
  The performance series. The average gain of a month is the \<open>avg_pct_gain_loss\<close> that
  \<^verbatim>\<open>compute_portfolio_performance\<close> returns for it; the benchmark price of a month is what the
  lookup answers for its target date; the price-ratio return of the benchmark between two
  closes is 0 when either is missing or zero.
\<close>

definition avg_of :: "market \<Rightarrow> portfolio_data \<Rightarrow> nat \<times> nat \<Rightarrow> real" where
  "avg_of mk pd ym =
     (case compute_portfolio_performance mk pd (snd ym) (fst ym) (pd_exchange_rates pd) of
        Inl e \<Rightarrow> 0
      | Inr perf \<Rightarrow> avg_pct_gain_loss perf)"

definition sp500_price_of :: "market \<Rightarrow> nat \<times> nat \<Rightarrow> real option" where
  "sp500_price_of mk ym = get_sp500_price mk (fst (target_of mk (fst ym) (snd ym)))"

definition price_ratio_return :: "real option \<Rightarrow> real option \<Rightarrow> real" where
  "price_ratio_return previous price =
     (case previous of
        None \<Rightarrow> 0
      | Some a \<Rightarrow>
          (case price of
             None \<Rightarrow> 0
           | Some b \<Rightarrow> if a > 0 \<and> b \<noteq> 0 then (b - a) / a else 0))"

text \<open>
  The last close fetched in a list of months: the close of the latest month whose lookup
  answered a price other than 0, if there is one.
\<close>

definition last_fetched_close :: "market \<Rightarrow> (nat \<times> nat) list \<Rightarrow> real option" where
  "last_fetched_close mk months =
     fold (\<lambda>ym previous.
             (case sp500_price_of mk ym of
                None \<Rightarrow> previous
              | Some price \<Rightarrow> if price \<noteq> 0 then Some price else previous))
          months None"

text \<open>
  The cache of benchmark prices holds only what the lookup answers; the values carried after
  the first \<open>k\<close> months of the series.
\<close>

definition cache_ok :: "market \<Rightarrow> ((nat \<times> nat) \<times> real option) list \<Rightarrow> bool" where
  "cache_ok mk cache \<longleftrightarrow>
     (\<forall>ym v. map_of cache ym = Some v \<longrightarrow> v = sp500_price_of mk ym)"

definition tracking_after :: "market \<Rightarrow> portfolio_data \<Rightarrow> (nat \<times> nat) list \<Rightarrow> nat \<Rightarrow> tracking" where
  "tracking_after mk pd months k =
     (case performance_rows mk pd initial_tracking (take k months) of
        Inl e \<Rightarrow> initial_tracking
      | Inr (rows, st) \<Rightarrow> st)"

text \<open>
  The price of a held symbol at a month's target date (real-time in the current month, else
  historical, else the average cost), its gain ratio
  \<open>(current_price - weighted_avg_cost) / weighted_avg_cost\<close>, and the unweighted mean of the
  ratios: over all the symbols held, as the specification words it, and over the held symbols
  of positive average cost (0 when there is none).
\<close>

definition price_at ::
  "market \<Rightarrow> portfolio_data \<Rightarrow> nat \<Rightarrow> nat \<Rightarrow> string \<Rightarrow> holding \<Rightarrow> real" where
  "price_at mk pd year month symbol h =
     (case (if snd (target_of mk year month)
            then (case map_of (real_time_data pd) symbol of None \<Rightarrow> None | Some p \<Rightarrow> p)
            else None) of
        Some p \<Rightarrow> p
      | None \<Rightarrow>
          (case get_historical_price mk symbol (fst (target_of mk year month)) of
             Some p \<Rightarrow> p
           | None \<Rightarrow> weighted_avg_cost h))"

definition gain_ratio ::
  "market \<Rightarrow> portfolio_data \<Rightarrow> nat \<Rightarrow> nat \<Rightarrow> string \<times> holding \<Rightarrow> real" where
  "gain_ratio mk pd year month sh =
     (price_at mk pd year month (fst sh) (snd sh) - weighted_avg_cost (snd sh))
       / weighted_avg_cost (snd sh)"

definition mean :: "real list \<Rightarrow> real" where
  "mean xs = sum_list xs / real (length xs)"

definition held_at :: "market \<Rightarrow> portfolio_data \<Rightarrow> nat \<Rightarrow> nat \<Rightarrow> holdings" where
  "held_at mk pd year month = holdings_at pd (fst (target_of mk year month))"

definition mean_gain_all_held :: "market \<Rightarrow> portfolio_data \<Rightarrow> nat \<Rightarrow> nat \<Rightarrow> real" where
  "mean_gain_all_held mk pd year month =
     mean (map (gain_ratio mk pd year month) (held_at mk pd year month))"

definition mean_gain_positive_cost :: "market \<Rightarrow> portfolio_data \<Rightarrow> nat \<Rightarrow> nat \<Rightarrow> real" where
  "mean_gain_positive_cost mk pd year month =
     (let priced = filter (\<lambda>sh. 0 < weighted_avg_cost (snd sh)) (held_at mk pd year month)
      in if priced = [] then 0 else mean (map (gain_ratio mk pd year month) priced))"

section \<open>Sample transactions\<close>

definition buy :: "string \<Rightarrow> real \<Rightarrow> real \<Rightarrow> date \<Rightarrow> transaction" where
  "buy s n p d =
     \<lparr>t_symbol = s, t_shares = n, t_price = p, t_type = Buy, t_date = d,
      t_currency = Some ''$'', t_name = s, t_fee = None\<rparr>"

definition sell :: "string \<Rightarrow> real \<Rightarrow> real \<Rightarrow> date \<Rightarrow> real \<Rightarrow> transaction" where
  "sell s n p d f =
     \<lparr>t_symbol = s, t_shares = n, t_price = p, t_type = Sell, t_date = d,
      t_currency = Some ''$'', t_name = s, t_fee = Some f\<rparr>"

text \<open>
  The scenario of the specification: Buy 10 at 100 on 2024-01-05, Buy 5 at 120 on 2024-02-10,
  Sell 12 at 150 with a fee of 5 on 2024-03-01; the account that holds it; the record of its
  Sell.
\<close>

definition scenario :: "transaction list" where
  "scenario =
     [buy ''ACME'' 10 100 (5, 1, 2024), buy ''ACME'' 5 120 (10, 2, 2024),
      sell ''ACME'' 12 150 (1, 3, 2024) 5]"

text \<open>The object of the portfolio file that carries every key of a ledger transaction.\<close>

definition json_of :: "transaction \<Rightarrow> json_transaction" where
  "json_of t =
     \<lparr>j_symbol = t_symbol t, j_shares = Some (t_shares t), j_price = Some (t_price t),
      j_type = t_type t, j_date = t_date t, j_currency = t_currency t, j_fee = t_fee t\<rparr>"

definition scenario_account :: account where
  "scenario_account =
     \<lparr>account_name = ''Broker'', a_currency = ''$'', a_transactions = map json_of scenario\<rparr>"

definition scenario_sell_result :: sell_result where
  "scenario_sell_result =
     \<lparr>r_symbol = ''ACME'', sell_date = (1, 3, 2024), r_account = ''Broker'',
      shares_sold = 12, sell_price = 150, gross_proceeds = 1800, fees = 5,
      net_proceeds = 1795, r_weighted_avg_cost = 310 / 3, total_cost_basis = 1240,
      realized_pnl = 555, realized_pnl_pct = 2775 / 62, r_currency = ''$''\<rparr>"

text \<open>An account with two symbols whose Sells are dated in the other order than their Buys.\<close>

definition two_symbol_account :: account where
  "two_symbol_account =
     \<lparr>account_name = ''Broker'', a_currency = ''$'',
      a_transactions =
        map json_of
          [buy ''AAA'' 10 100 (1, 1, 2024), buy ''BBB'' 10 50 (2, 1, 2024),
           sell ''BBB'' 4 60 (1, 2, 2024) 1, sell ''AAA'' 3 120 (1, 3, 2024) 1]\<rparr>"

text \<open>An account whose last transaction is a dividend without the key \<^verbatim>\<open>shares\<close>.\<close>

definition dividend_account :: account where
  "dividend_account =
     \<lparr>account_name = ''Broker'', a_currency = ''$'',
      a_transactions =
        [json_of (buy ''AAA'' 10 100 (1, 1, 2024)),
         json_of (sell ''AAA'' 3 120 (1, 3, 2024) 1),
         \<lparr>j_symbol = ''AAA'', j_shares = None, j_price = Some 2, j_type = Other,
          j_date = (1, 4, 2024), j_currency = Some ''$'', j_fee = None\<rparr>]\<rparr>"

text \<open>
  A portfolio of one symbol, bought in January 2024 and seen on 15 March 2024, with its closes
  at the end of January and February and its real-time price; the benchmark has no close at
  the end of February. The rows of its performance series.
\<close>

definition sample_portfolio :: portfolio_data where
  "sample_portfolio =
     \<lparr>pd_accounts = [(''Broker'', [buy ''AAA'' 10 100 (5, 1, 2024)])],
      real_time_data = [(''AAA'', Some 150)],
      pd_exchange_rates = static_exchange_rates\<rparr>"

definition sample_market :: market where
  "sample_market =
     \<lparr>now = (2024, 3, 15),
      get_historical_price =
        (\<lambda>symbol d.
           if symbol = ''AAA''
           then (if d = (2024, 1, 31) then Some 110
                 else if d = (2024, 2, 29) then Some 121 else None)
           else if symbol = ''^GSPC''
           then (if d = (2024, 1, 31) then Some 4000
                 else if d = (2024, 3, 15) then Some 4400 else None)
           else None)\<rparr>"

definition sample_rows :: "performance_row list" where
  "sample_rows =
     [\<lparr>row_month = (2024, 1), row_portfolio_value = 1100, monthly_return = 1 / 10,
       sp500_monthly_return = 0, outperformance = 1 / 10, cumulative_return = 1 / 10,
       benchmark_cumulative = 0, alpha = 1 / 10\<rparr>,
      \<lparr>row_month = (2024, 2), row_portfolio_value = 1210, monthly_return = 11 / 100,
       sp500_monthly_return = 0, outperformance = 11 / 100, cumulative_return = 221 / 1000,
       benchmark_cumulative = 0, alpha = 221 / 1000\<rparr>,
      \<lparr>row_month = (2024, 3), row_portfolio_value = 1500, monthly_return = 29 / 100,
       sp500_monthly_return = 1 / 10, outperformance = 19 / 100,
       cumulative_return = 57509 / 100000, benchmark_cumulative = 1 / 10,
       alpha = 47509 / 100000\<rparr>]"

text \<open>A portfolio that also holds five shares received at no cost.\<close>

definition gift_portfolio :: portfolio_data where
  "gift_portfolio =
     \<lparr>pd_accounts =
        [(''Broker'', [buy ''AAA'' 10 100 (5, 1, 2024), buy ''GIFT'' 5 0 (6, 1, 2024)])],
      real_time_data = [],
      pd_exchange_rates = static_exchange_rates\<rparr>"

definition gift_market :: market where
  "gift_market =
     \<lparr>now = (2024, 3, 15),
      get_historical_price =
        (\<lambda>symbol d. if symbol = ''AAA'' then Some 150
                    else if symbol = ''GIFT'' then Some 10 else None)\<rparr>"

section \<open>The ledger: lemmas\<close>

lemma sum_shares_simps [simp]:
  "sum_shares [] = 0" "sum_shares ((s, p, d) # ls) = s + sum_shares ls"
  "sum_shares (xs @ ys) = sum_shares xs + sum_shares ys"
  by (simp_all add: sum_shares_def)

lemma sum_cost_simps [simp]:
  "sum_cost [] = 0" "sum_cost ((s, p, d) # ls) = s * p + sum_cost ls"
  "sum_cost (xs @ ys) = sum_cost xs + sum_cost ys"
  by (simp_all add: sum_cost_def)

lemma fold_totals:
  "fold (\<lambda>(shares, price, _) (total_shares, total_cost).
           (total_shares + shares, total_cost + shares * price)) ls (a, b)
   = (a + sum_shares ls, b + sum_cost ls)"
  by (induction ls arbitrary: a b) (auto simp: algebra_simps)

lemma calculate_totals_fields:
  "total_shares (calculate_totals h) = sum_shares (lots h)"
  "total_cost (calculate_totals h) = sum_cost (lots h)"
  "weighted_avg_cost (calculate_totals h) =
     (if sum_shares (lots h) > 0 then sum_cost (lots h) / sum_shares (lots h) else 0)"
  "lots (calculate_totals h) = lots h"
  "h_name (calculate_totals h) = h_name h"
  "h_currency (calculate_totals h) = h_currency h"
  by (simp_all add: calculate_totals_def fold_totals)

lemma sell_lots_sum:
  "0 \<le> r \<Longrightarrow> r \<le> sum_shares ls \<Longrightarrow> sum_shares (sell_lots r ls) = sum_shares ls - r"
  by (induction r ls rule: sell_lots.induct) auto

lemma sell_lots_nonneg:
  "\<forall>l \<in> set ls. 0 \<le> fst l \<Longrightarrow> \<forall>l \<in> set (sell_lots r ls). 0 \<le> fst l"
  by (induction r ls rule: sell_lots.induct) auto

lemma sell_lots_pos:
  "\<forall>l \<in> set ls. 0 < fst l \<Longrightarrow> \<forall>l \<in> set (sell_lots r ls). 0 < fst l"
  by (induction r ls rule: sell_lots.induct) auto

lemma sum_shares_nonneg: "\<forall>l \<in> set ls. 0 \<le> fst l \<Longrightarrow> 0 \<le> sum_shares ls"
  by (induction ls) (auto simp: sum_shares_def)

lemma sum_shares_pos: "\<forall>l \<in> set ls. 0 < fst l \<Longrightarrow> ls \<noteq> [] \<Longrightarrow> 0 < sum_shares ls"
  by (induction ls) (force simp: sum_shares_def intro: add_pos_nonneg sum_list_nonneg)+

lemma sell_lots_all:
  "\<forall>l \<in> set ls. 0 < fst l \<Longrightarrow> sum_shares ls \<le> r \<Longrightarrow> sell_lots r ls = []"
proof (induction r ls rule: sell_lots.induct)
  case (1 r)
  then show ?case by simp
next
  case (2 r s p d rest)
  have "0 \<le> sum_shares rest" using 2(2) by (intro sum_shares_nonneg) auto
  then show ?case using 2 by auto
qed

lemma sum_cost_zero:
  "\<forall>l \<in> set ls. 0 \<le> fst l \<Longrightarrow> sum_shares ls = 0 \<Longrightarrow> sum_cost ls = 0"
proof (induction ls)
  case Nil then show ?case by simp
next
  case (Cons l ls)
  obtain s p d where l: "l = (s, p, d)" by (cases l) auto
  have "0 \<le> sum_shares ls" using Cons.prems by (intro sum_shares_nonneg) auto
  then show ?case using Cons l by auto
qed


lemma replay_simps [simp]:
  "replay hs [] = hs"
  "replay hs (t # ts) = replay (process_transaction hs t) ts"
  "replay hs (ts @ us) = replay (replay hs ts) us"
  by (simp_all add: replay_def)

lemma get_holding_process:
  "get_holding (process_transaction hs t) s =
     (if s = t_symbol t
      then calculate_totals (apply_transaction (get_holding hs s) t)
      else get_holding hs s)"
  by (simp add: process_transaction_def Let_def get_holding_def AList.update_conv')

lemma map_of_process:
  "map_of (process_transaction hs t) s =
     (if s = t_symbol t
      then Some (calculate_totals (apply_transaction (get_holding hs s) t))
      else map_of hs s)"
  by (simp add: process_transaction_def Let_def AList.update_conv')

lemma distinct_process:
  "distinct (map fst hs) \<Longrightarrow> distinct (map fst (process_transaction hs t))"
  by (simp add: process_transaction_def Let_def AList.distinct_update)

lemma distinct_replay:
  "distinct (map fst hs) \<Longrightarrow> distinct (map fst (replay hs ts))"
  by (induction ts arbitrary: hs) (simp_all add: distinct_process)

lemma lots_apply:
  "lots (apply_transaction h t) =
     (case t_type t of Buy \<Rightarrow> lots h @ [(t_shares t, t_price t, t_date t)]
                     | Sell \<Rightarrow> sell_lots (t_shares t) (lots h)
                     | Other \<Rightarrow> lots h)"
  by (simp add: apply_transaction_def split: trans_type.splits)

text \<open>An invariant of every stored holding, carried along the replay.\<close>

lemma replay_holdings_induct:
  assumes init: "\<And>s h. map_of hs s = Some h \<Longrightarrow> P h"
    and dflt: "P default_holding"
    and step: "\<And>h t. P h \<Longrightarrow> t \<in> set ts \<Longrightarrow> P (calculate_totals (apply_transaction h t))"
    and look: "map_of (replay hs ts) s = Some h"
  shows "P h"
  using init step look
proof (induction ts arbitrary: hs s h)
  case Nil
  then show ?case by simp
next
  case (Cons t ts)
  have "\<And>s h. map_of (process_transaction hs t) s = Some h \<Longrightarrow> P h"
  proof -
    fix s h
    assume a: "map_of (process_transaction hs t) s = Some h"
    have g: "P (get_holding hs (t_symbol t))"
      using Cons.prems(1) dflt by (auto simp: get_holding_def split: option.splits)
    show "P h"
    proof (cases "s = t_symbol t")
      case True
      then show ?thesis using a g Cons.prems(2)[of "get_holding hs (t_symbol t)" t]
        by (simp add: map_of_process)
    next
      case False
      then show ?thesis using a Cons.prems(1) by (simp add: map_of_process)
    qed
  qed
  then show ?case
    using Cons.IH[of "process_transaction hs t" s h] Cons.prems by simp
qed

lemma holding_invariant_totals:
  "\<forall>l \<in> set (lots h). 0 \<le> fst l \<Longrightarrow> holding_invariant (calculate_totals h)"
  using sum_shares_nonneg[of "lots h"] sum_cost_zero[of "lots h"]
  by (auto simp: holding_invariant_def calculate_totals_fields)

lemma lots_apply_nonneg:
  assumes "\<forall>l \<in> set (lots h). 0 \<le> fst l" and "t_type t = Buy \<longrightarrow> 0 \<le> t_shares t"
  shows "\<forall>l \<in> set (lots (apply_transaction h t)). 0 \<le> fst l"
  using assms sell_lots_nonneg[of "lots h" "t_shares t"]
  by (cases "t_type t") (auto simp: lots_apply)

lemma sound_step:
  "sound_holding h \<Longrightarrow> t_type t = Buy \<longrightarrow> 0 \<le> t_shares t \<Longrightarrow>
   sound_holding (calculate_totals (apply_transaction h t))"
  using lots_apply_nonneg[of h t] holding_invariant_totals[of "apply_transaction h t"]
  by (simp add: sound_holding_def calculate_totals_fields)

lemma sound_default: "sound_holding default_holding"
  by (simp add: sound_holding_def holding_invariant_def default_holding_def)

lemma invariant_round_trip:
  "holding_invariant h \<Longrightarrow> (\<forall>l \<in> set (lots h). 0 \<le> fst l) \<Longrightarrow>
   weighted_avg_cost h * total_shares h = total_cost h"
  using sum_cost_zero[of "lots h"] by (auto simp: holding_invariant_def)

lemma map_of_filter_values:
  "distinct (map fst al) \<Longrightarrow>
   map_of (filter (\<lambda>(k, v). P v) al) k =
     (case map_of al k of None \<Rightarrow> None | Some v \<Rightarrow> if P v then Some v else None)"
proof (induction al)
  case Nil
  then show ?case by simp
next
  case (Cons a al)
  obtain k' v' where a: "a = (k', v')" by (cases a)
  have "k' \<notin> fst ` set al" using Cons.prems a by auto
  then have "map_of al k' = None" by (simp add: map_of_eq_None_iff)
  then show ?case using Cons a by (auto split: option.splits)
qed

lemma map_of_process_transactions:
  "map_of (process_transactions [] ts) s =
     (case map_of (replay [] ts) s of None \<Rightarrow> None
      | Some h \<Rightarrow> if total_shares h > 0 then Some h else None)"
  unfolding process_transactions_def
  by (rule map_of_filter_values) (simp add: distinct_replay)

lemma total_shares_apply:
  assumes "total_shares h = sum_shares (lots h)"
    and "t_type t = Sell \<longrightarrow> 0 \<le> t_shares t \<and> t_shares t \<le> total_shares h"
  shows "total_shares (calculate_totals (apply_transaction h t)) =
           total_shares h
           + (if t_type t = Buy then t_shares t else 0)
           - (if t_type t = Sell then t_shares t else 0)"
  using assms sell_lots_sum[of "t_shares t" "lots h"]
  by (cases "t_type t") (simp_all add: calculate_totals_fields lots_apply)

lemma bought_sold_Cons:
  "sum_buy_shares s (t # ts) =
     (if t_type t = Buy \<and> t_symbol t = s then t_shares t else 0) + sum_buy_shares s ts"
  "sum_sell_shares s (t # ts) =
     (if t_type t = Sell \<and> t_symbol t = s then t_shares t else 0) + sum_sell_shares s ts"
  by (simp_all add: sum_buy_shares_def sum_sell_shares_def)

lemma bought_sold_Nil [simp]: "sum_buy_shares s [] = 0" "sum_sell_shares s [] = 0"
  by (simp_all add: sum_buy_shares_def sum_sell_shares_def)

lemma total_shares_replay_from:
  assumes "\<forall>s. total_shares (get_holding hs s) = sum_shares (lots (get_holding hs s))"
    and "within_holdings hs ts"
  shows "total_shares (get_holding (replay hs ts) s) =
           total_shares (get_holding hs s) + sum_buy_shares s ts - sum_sell_shares s ts"
  using assms
proof (induction ts arbitrary: hs)
  case Nil
  then show ?case by simp
next
  case (Cons t ts)
  let ?hs = "process_transaction hs t"
  have cons: "\<forall>s. total_shares (get_holding ?hs s) = sum_shares (lots (get_holding ?hs s))"
    using Cons.prems(1) by (simp add: get_holding_process calculate_totals_fields)
  have w: "within_holdings ?hs ts" using Cons.prems(2) by simp
  have step: "total_shares (get_holding ?hs s) =
          total_shares (get_holding hs s)
          + (if t_type t = Buy \<and> t_symbol t = s then t_shares t else 0)
          - (if t_type t = Sell \<and> t_symbol t = s then t_shares t else 0)"
  proof (cases "s = t_symbol t")
    case True
    have "total_shares (calculate_totals (apply_transaction (get_holding hs s) t)) =
           total_shares (get_holding hs s)
           + (if t_type t = Buy then t_shares t else 0)
           - (if t_type t = Sell then t_shares t else 0)"
      using Cons.prems True by (intro total_shares_apply) auto
    then show ?thesis using True by (simp add: get_holding_process)
  next
    case False
    then show ?thesis by (simp add: get_holding_process)
  qed
  show ?case
    using Cons.IH[OF cons w] step by (simp add: bought_sold_Cons)
qed

lemma get_holding_empty [simp]: "get_holding [] s = default_holding"
  by (simp add: get_holding_def)

lemma total_shares_replay:
  "within_holdings [] ts \<Longrightarrow>
   total_shares (get_holding (replay [] ts) s) = sum_buy_shares s ts - sum_sell_shares s ts"
  using total_shares_replay_from[of "[]" ts s] by (simp add: default_holding_def)

lemma sound_replay:
  assumes "\<forall>t \<in> set ts. t_type t = Buy \<longrightarrow> 0 \<le> t_shares t"
  shows "sound_holding (get_holding (replay [] ts) s)"
proof (cases "map_of (replay [] ts) s")
  case None
  then show ?thesis by (simp add: get_holding_def sound_default)
next
  case (Some h)
  have "sound_holding h"
    by (rule replay_holdings_induct[where P = sound_holding, OF _ sound_default _ Some])
       (use assms in \<open>auto intro!: sound_step\<close>)
  then show ?thesis using Some by (simp add: get_holding_def)
qed

lemmas ledger_eval =
  replay_def process_transactions_def process_transaction_def apply_transaction_def
  calculate_totals_def get_holding_def default_holding_def buy_def sell_def Let_def

lemma replay_snoc: "replay hs (ts @ [t]) = process_transaction (replay hs ts) t"
  by simp

text \<open>A Sell takes the shares asked for, or all the shares of the queue when it asks for more.\<close>

lemma sell_lots_over:
  "\<forall>l \<in> set ls. 0 \<le> fst l \<Longrightarrow> sum_shares ls \<le> r \<Longrightarrow> sum_shares (sell_lots r ls) = 0"
proof (induction r ls rule: sell_lots.induct)
  case (1 r)
  then show ?case by simp
next
  case (2 r s p d rest)
  have nn: "0 \<le> sum_shares rest" using 2(2) by (intro sum_shares_nonneg) auto
  have s: "0 \<le> s" using 2(2) by simp
  show ?case
  proof (cases "0 < r")
    case True
    then show ?thesis using 2 nn s by auto
  next
    case False
    then show ?thesis using 2(3) nn s by auto
  qed
qed

lemma sell_lots_clamp:
  assumes "\<forall>l \<in> set ls. 0 \<le> fst l" and "0 \<le> r"
  shows "sum_shares (sell_lots r ls) = sum_shares ls - min r (sum_shares ls)"
proof (cases "r \<le> sum_shares ls")
  case True
  then show ?thesis using sell_lots_sum[OF assms(2) True] by simp
next
  case False
  then show ?thesis using sell_lots_over[OF assms(1), of r] by simp
qed

section \<open>Claim C1: a Sell for more shares than are held\<close>

text \<open>
  Claim C1, as amended. In a ledger where no Buy has a negative number of shares, a Sell that
  asks for more shares of a symbol than are held is not rejected: the replay raises nothing
  and goes on with the transactions that follow. The Sell is clamped to the
  shares available: a Sell of \<open>n \<ge> 0\<close> shares takes \<open>min n held\<close> of them, so that after a Sell
  for more than is held the symbol has \<open>total_shares = 0\<close> and \<open>total_cost = 0\<close>. The holdings
  of the other symbols are untouched.
\<close>

theorem oversell_is_clamped:
  assumes buys: "\<forall>u \<in> set ts. t_type u = Buy \<longrightarrow> 0 \<le> t_shares u"
    and sell: "t_type t = Sell"
  shows "(0 \<le> t_shares t \<longrightarrow>
            total_shares (get_holding (replay [] (ts @ [t])) (t_symbol t))
              = total_shares (get_holding (replay [] ts) (t_symbol t))
                - min (t_shares t) (total_shares (get_holding (replay [] ts) (t_symbol t))))
       \<and> (total_shares (get_holding (replay [] ts) (t_symbol t)) < t_shares t \<longrightarrow>
            total_shares (get_holding (replay [] (ts @ [t])) (t_symbol t)) = 0
            \<and> total_cost (get_holding (replay [] (ts @ [t])) (t_symbol t)) = 0)
       \<and> (\<forall>s. s \<noteq> t_symbol t \<longrightarrow>
              get_holding (replay [] (ts @ [t])) s = get_holding (replay [] ts) s)
       \<and> (\<forall>us. replay [] (ts @ t # us) = replay (replay [] (ts @ [t])) us)"
proof -
  let ?h = "get_holding (replay [] ts) (t_symbol t)"
  let ?h' = "get_holding (replay [] (ts @ [t])) (t_symbol t)"
  have snd: "sound_holding ?h" using buys by (rule sound_replay)
  then have nn: "\<forall>l \<in> set (lots ?h). 0 \<le> fst l" and tot: "total_shares ?h = sum_shares (lots ?h)"
    by (simp_all add: sound_holding_def holding_invariant_def)
  have held: "0 \<le> total_shares ?h" using sum_shares_nonneg[OF nn] tot by simp
  have lots': "lots ?h' = sell_lots (t_shares t) (lots ?h)"
    using sell by (simp add: get_holding_process calculate_totals_fields lots_apply)
  have ts': "total_shares ?h' = sum_shares (sell_lots (t_shares t) (lots ?h))"
    and tc': "total_cost ?h' = sum_cost (sell_lots (t_shares t) (lots ?h))"
    using sell by (simp_all add: get_holding_process calculate_totals_fields lots_apply)
  have clamp: "0 \<le> t_shares t \<longrightarrow> total_shares ?h' = total_shares ?h - min (t_shares t) (total_shares ?h)"
    using sell_lots_clamp[OF nn, of "t_shares t"] ts' tot by simp
  have over: "total_shares ?h < t_shares t \<longrightarrow> total_shares ?h' = 0 \<and> total_cost ?h' = 0"
  proof
    assume m: "total_shares ?h < t_shares t"
    have z: "sum_shares (sell_lots (t_shares t) (lots ?h)) = 0"
      using sell_lots_over[OF nn, of "t_shares t"] m tot by simp
    have "sum_cost (sell_lots (t_shares t) (lots ?h)) = 0"
      using sum_cost_zero[OF sell_lots_nonneg[OF nn, of "t_shares t"] z] .
    then show "total_shares ?h' = 0 \<and> total_cost ?h' = 0"
      using z ts' tc' by simp
  qed
  have others: "\<forall>s. s \<noteq> t_symbol t \<longrightarrow>
                  get_holding (replay [] (ts @ [t])) s = get_holding (replay [] ts) s"
    by (simp add: get_holding_process)
  have goes_on: "\<forall>us. replay [] (ts @ t # us) = replay (replay [] (ts @ [t])) us"
    by simp
  show ?thesis using clamp over others goes_on by (intro conjI)
qed

text \<open>
  The claim as first stated fails: Buy 13 then Sell 20 is replayed to the end and returns a
  dictionary, the empty one, which is also what Buy 13 then Sell 13 returns.
\<close>

theorem oversell_counterexample:
  "process_transactions []
     [buy ''ACME'' 13 100 (5, 1, 2024), sell ''ACME'' 20 150 (1, 3, 2024) 5] = []
   \<and> process_transactions []
       [buy ''ACME'' 13 100 (5, 1, 2024), sell ''ACME'' 20 150 (1, 3, 2024) 5]
     = process_transactions []
       [buy ''ACME'' 13 100 (5, 1, 2024), sell ''ACME'' 13 150 (1, 3, 2024) 5]"
  by (simp add: ledger_eval)

text \<open>
  The amended claim at Buy 13 then Sell 20: of the 20 shares asked for, the 13 held are taken.
\<close>

theorem oversell_is_clamped_witness:
  "0 \<le> t_shares (buy ''ACME'' 13 100 (5, 1, 2024))
   \<and> t_type (sell ''ACME'' 20 150 (1, 3, 2024) 5) = Sell
   \<and> total_shares (get_holding (replay [] [buy ''ACME'' 13 100 (5, 1, 2024)]) ''ACME'') = 13
   \<and> (13::real) < 20
   \<and> total_shares (get_holding
        (replay [] [buy ''ACME'' 13 100 (5, 1, 2024), sell ''ACME'' 20 150 (1, 3, 2024) 5])
        ''ACME'') = 13 - min 20 13
   \<and> total_cost (get_holding
        (replay [] [buy ''ACME'' 13 100 (5, 1, 2024), sell ''ACME'' 20 150 (1, 3, 2024) 5])
        ''ACME'') = 0"
proof -
  let ?ts = "[buy ''ACME'' 13 100 (5, 1, 2024)]"
  let ?t = "sell ''ACME'' 20 150 (1, 3, 2024) 5"
  have a: "\<forall>u \<in> set ?ts. t_type u = Buy \<longrightarrow> 0 \<le> t_shares u" by (simp add: buy_def)
  have a': "0 \<le> t_shares (buy ''ACME'' 13 100 (5, 1, 2024))" by (simp add: buy_def)
  have b: "t_type ?t = Sell" by (simp add: sell_def)
  have s: "t_symbol ?t = ''ACME''" "t_shares ?t = 20" by (simp_all add: sell_def)
  have h: "total_shares (get_holding (replay [] ?ts) ''ACME'') = 13"
    by (simp add: ledger_eval)
  have lt: "(13::real) < 20" by simp
  note c = oversell_is_clamped[OF a b, unfolded s h]
  have app: "?ts @ [?t] = [buy ''ACME'' 13 100 (5, 1, 2024), ?t]" by simp
  have c1: "total_shares (get_holding (replay [] (?ts @ [?t])) ''ACME'') = 13 - min 20 13"
    using c by simp
  have c2: "total_cost (get_holding (replay [] (?ts @ [?t])) ''ACME'') = 0"
    using c lt by blast
  show ?thesis
    using a' b h lt c1[unfolded app] c2[unfolded app] by (intro conjI)
qed

section \<open>Claim C3: shares held, bought and sold\<close>

text \<open>
  Claim C3, as amended. When no Sell of the list asks for more shares than its symbol holds at
  that moment, the replay leaves every symbol with
  \<open>total_shares = \<Sum> shares bought - \<Sum> shares sold\<close>, in the dictionary of the loop and in
  the pruned dictionary that \<^verbatim>\<open>process_transactions\<close> returns. Whatever the list, a returned
  holding has a positive \<open>total_shares\<close>, and when no Buy has a negative number of shares no
  holding of the loop has a negative \<open>total_shares\<close>.
\<close>

theorem total_shares_bought_minus_sold:
  "(within_holdings [] ts \<longrightarrow>
      total_shares (get_holding (replay [] ts) s) = sum_buy_shares s ts - sum_sell_shares s ts)
   \<and> (\<forall>h. map_of (process_transactions [] ts) s = Some h \<longrightarrow>
          0 < total_shares h
          \<and> (within_holdings [] ts \<longrightarrow> total_shares h = sum_buy_shares s ts - sum_sell_shares s ts))
   \<and> ((\<forall>t \<in> set ts. t_type t = Buy \<longrightarrow> 0 \<le> t_shares t) \<longrightarrow>
          0 \<le> total_shares (get_holding (replay [] ts) s))"
proof (intro conjI allI impI)
  assume "within_holdings [] ts"
  then show "total_shares (get_holding (replay [] ts) s) = sum_buy_shares s ts - sum_sell_shares s ts"
    by (rule total_shares_replay)
next
  fix h assume "map_of (process_transactions [] ts) s = Some h"
  then show "0 < total_shares h"
    by (auto simp: map_of_process_transactions split: option.splits if_splits)
next
  fix h assume a: "map_of (process_transactions [] ts) s = Some h" and w: "within_holdings [] ts"
  from a have "get_holding (replay [] ts) s = h"
    by (auto simp: map_of_process_transactions get_holding_def split: option.splits if_splits)
  then show "total_shares h = sum_buy_shares s ts - sum_sell_shares s ts"
    using total_shares_replay[OF w, of s] by simp
next
  assume "\<forall>t \<in> set ts. t_type t = Buy \<longrightarrow> 0 \<le> t_shares t"
  then have "sound_holding (get_holding (replay [] ts) s)" by (rule sound_replay)
  then show "0 \<le> total_shares (get_holding (replay [] ts) s)"
    using sum_shares_nonneg[of "lots (get_holding (replay [] ts) s)"]
    by (simp add: sound_holding_def holding_invariant_def)
qed

text \<open>The amended claim at Buy 10 then Sell 4: six shares are held, and returned.\<close>

theorem total_shares_witness:
  "within_holdings [] [buy ''ACME'' 10 100 (5, 1, 2024), sell ''ACME'' 4 150 (1, 3, 2024) 5]
   \<and> 0 \<le> t_shares (buy ''ACME'' 10 100 (5, 1, 2024))
   \<and> map_of (process_transactions []
          [buy ''ACME'' 10 100 (5, 1, 2024), sell ''ACME'' 4 150 (1, 3, 2024) 5]) ''ACME''
       = Some \<lparr>h_name = ''ACME'', lots = [(6, 100, (5, 1, 2024))], total_shares = 6,
               weighted_avg_cost = 100, total_cost = 600, sector = ''Unknown'',
               h_currency = ''$''\<rparr>
   \<and> total_shares (get_holding
        (replay [] [buy ''ACME'' 10 100 (5, 1, 2024), sell ''ACME'' 4 150 (1, 3, 2024) 5])
        ''ACME'')
       = sum_buy_shares ''ACME''
           [buy ''ACME'' 10 100 (5, 1, 2024), sell ''ACME'' 4 150 (1, 3, 2024) 5]
         - sum_sell_shares ''ACME''
           [buy ''ACME'' 10 100 (5, 1, 2024), sell ''ACME'' 4 150 (1, 3, 2024) 5]
   \<and> sum_buy_shares ''ACME''
           [buy ''ACME'' 10 100 (5, 1, 2024), sell ''ACME'' 4 150 (1, 3, 2024) 5]
         - sum_sell_shares ''ACME''
           [buy ''ACME'' 10 100 (5, 1, 2024), sell ''ACME'' 4 150 (1, 3, 2024) 5] = 6"
  using total_shares_bought_minus_sold
          [of "[buy ''ACME'' 10 100 (5, 1, 2024), sell ''ACME'' 4 150 (1, 3, 2024) 5]" "''ACME''"]
  by (simp add: ledger_eval sum_buy_shares_def sum_sell_shares_def)

text \<open>
  The claim as first stated fails where a Sell exceeds the holding: after Buy 13, Sell 20, Buy 5
  the symbol holds 5 shares, and bought minus sold is \<open>-2\<close>.
\<close>

theorem total_shares_counterexample:
  "total_shares (get_holding
      (process_transactions []
         [buy ''ACME'' 13 10 (1, 1, 2024), sell ''ACME'' 20 12 (1, 2, 2024) 0,
          buy ''ACME'' 5 11 (1, 3, 2024)]) ''ACME'') = 5
   \<and> sum_buy_shares ''ACME''
         [buy ''ACME'' 13 10 (1, 1, 2024), sell ''ACME'' 20 12 (1, 2, 2024) 0,
          buy ''ACME'' 5 11 (1, 3, 2024)]
     - sum_sell_shares ''ACME''
         [buy ''ACME'' 13 10 (1, 1, 2024), sell ''ACME'' 20 12 (1, 2, 2024) 0,
          buy ''ACME'' 5 11 (1, 3, 2024)] = - 2"
  by (simp add: ledger_eval sum_buy_shares_def sum_sell_shares_def)

section \<open>Claim C4: the invariant of a holding\<close>

text \<open>
  Whatever the transactions, a stored holding carries the sums of its lots, and their quotient
  when the shares are positive, else 0: \<^verbatim>\<open>calculate_totals\<close> has just written them.
\<close>

lemma holding_totals_replay:
  assumes "map_of (replay [] ts) s = Some h"
  shows "total_shares h = sum_shares (lots h) \<and> total_cost h = sum_cost (lots h)
       \<and> weighted_avg_cost h = (if total_shares h > 0 then total_cost h / total_shares h else 0)"
proof (rule replay_holdings_induct[where hs = "[]" and ts = ts and s = s and h = h])
  show "\<And>s h. map_of [] s = Some h \<Longrightarrow>
          total_shares h = sum_shares (lots h) \<and> total_cost h = sum_cost (lots h)
          \<and> weighted_avg_cost h = (if total_shares h > 0 then total_cost h / total_shares h else 0)"
    by simp
  show "total_shares default_holding = sum_shares (lots default_holding)
        \<and> total_cost default_holding = sum_cost (lots default_holding)
        \<and> weighted_avg_cost default_holding
            = (if total_shares default_holding > 0
               then total_cost default_holding / total_shares default_holding else 0)"
    by (simp add: default_holding_def)
  show "\<And>h t. total_shares h = sum_shares (lots h) \<and> total_cost h = sum_cost (lots h)
          \<and> weighted_avg_cost h = (if total_shares h > 0 then total_cost h / total_shares h else 0)
        \<Longrightarrow> t \<in> set ts \<Longrightarrow>
        total_shares (calculate_totals (apply_transaction h t))
          = sum_shares (lots (calculate_totals (apply_transaction h t)))
        \<and> total_cost (calculate_totals (apply_transaction h t))
          = sum_cost (lots (calculate_totals (apply_transaction h t)))
        \<and> weighted_avg_cost (calculate_totals (apply_transaction h t))
          = (if total_shares (calculate_totals (apply_transaction h t)) > 0
             then total_cost (calculate_totals (apply_transaction h t))
                  / total_shares (calculate_totals (apply_transaction h t))
             else 0)"
    by (simp add: calculate_totals_fields)
  show "map_of (replay [] ts) s = Some h" by (rule assms)
qed

text \<open>
  Claim C4, as amended. In a ledger where no Buy has a negative number of shares, after every
  processed transaction (that is, in the dictionary reached after any prefix \<open>take k ts\<close> of
  the transaction list) every stored holding has \<open>total_shares = \<Sum> lot.shares\<close>,
  \<open>total_cost = \<Sum> lot.shares * lot.price\<close> and
  \<open>weighted_avg_cost = total_cost / total_shares\<close> (0 when \<open>total_shares\<close> is 0), and
  therefore \<open>weighted_avg_cost * total_shares = total_cost\<close>. Arithmetic is exact, so the
  round trip is an equality.
\<close>

theorem holding_invariant_replay:
  assumes "\<forall>t \<in> set ts. t_type t = Buy \<longrightarrow> 0 \<le> t_shares t"
    and "k \<le> length ts"
    and "map_of (replay [] (take k ts)) s = Some h"
  shows "holding_invariant h \<and> weighted_avg_cost h * total_shares h = total_cost h"
proof -
  have "sound_holding h"
  proof (rule replay_holdings_induct[where P = sound_holding, OF _ sound_default _ assms(3)])
    show "\<And>s h. map_of [] s = Some h \<Longrightarrow> sound_holding h" by simp
    show "\<And>h t. sound_holding h \<Longrightarrow> t \<in> set (take k ts) \<Longrightarrow>
            sound_holding (calculate_totals (apply_transaction h t))"
      using assms(1) by (auto intro!: sound_step dest: in_set_takeD)
  qed
  then show ?thesis
    using invariant_round_trip[of h] by (simp add: sound_holding_def)
qed


text \<open>
  The theorem at a Buy of 10 shares at 100 followed by a Sell of 4: the holding after both
  transactions has one lot of 6 shares, 600 of cost and an average cost of 100.
\<close>

theorem holding_invariant_replay_witness:
  "0 \<le> t_shares (buy ''ACME'' 10 100 (5, 1, 2024))
   \<and> (2::nat) \<le> length [buy ''ACME'' 10 100 (5, 1, 2024), sell ''ACME'' 4 150 (1, 3, 2024) 5]
   \<and> map_of (replay [] (take 2 [buy ''ACME'' 10 100 (5, 1, 2024), sell ''ACME'' 4 150 (1, 3, 2024) 5]))
        ''ACME''
      = Some \<lparr>h_name = ''ACME'', lots = [(6, 100, (5, 1, 2024))], total_shares = 6,
              weighted_avg_cost = 100, total_cost = 600, sector = ''Unknown'', h_currency = ''$''\<rparr>
   \<and> holding_invariant
        \<lparr>h_name = ''ACME'', lots = [(6, 100, (5, 1, 2024))], total_shares = 6,
         weighted_avg_cost = 100, total_cost = 600, sector = ''Unknown'', h_currency = ''$''\<rparr>
   \<and> weighted_avg_cost
        \<lparr>h_name = ''ACME'', lots = [(6, 100, (5, 1, 2024))], total_shares = 6,
         weighted_avg_cost = 100, total_cost = 600, sector = ''Unknown'', h_currency = ''$''\<rparr>
       * total_shares
        \<lparr>h_name = ''ACME'', lots = [(6, 100, (5, 1, 2024))], total_shares = 6,
         weighted_avg_cost = 100, total_cost = 600, sector = ''Unknown'', h_currency = ''$''\<rparr>
     = total_cost
        \<lparr>h_name = ''ACME'', lots = [(6, 100, (5, 1, 2024))], total_shares = 6,
         weighted_avg_cost = 100, total_cost = 600, sector = ''Unknown'', h_currency = ''$''\<rparr>"
proof -
  let ?ts = "[buy ''ACME'' 10 100 (5, 1, 2024), sell ''ACME'' 4 150 (1, 3, 2024) 5]"
  let ?h = "\<lparr>h_name = ''ACME'', lots = [(6, 100, (5, 1, 2024))], total_shares = 6,
         weighted_avg_cost = 100, total_cost = 600, sector = ''Unknown'', h_currency = ''$''\<rparr>"
  have a: "\<forall>t \<in> set ?ts. t_type t = Buy \<longrightarrow> 0 \<le> t_shares t"
    by (simp add: buy_def sell_def)
  have b: "(2::nat) \<le> length ?ts" by simp
  have c: "map_of (replay [] (take 2 ?ts)) ''ACME'' = Some ?h"
    by (simp add: ledger_eval)
  have a': "0 \<le> t_shares (buy ''ACME'' 10 100 (5, 1, 2024))" by (simp add: buy_def)
  show ?thesis
    using a' b c holding_invariant_replay[OF a b c] by simp
qed

text \<open>
  The claim as first stated fails where a Buy has a negative number of shares: after a Buy of
  \<open>-5\<close> shares at 10 the holding has \<open>total_shares = -5\<close> and \<open>total_cost = -50\<close>, and
  \<^verbatim>\<open>calculate_totals\<close>, which divides only when \<open>total_shares > 0\<close>, writes the average
  cost 0: neither the quotient 10 nor a factor of the cost.
\<close>

theorem holding_invariant_counterexample:
  "map_of (replay [] [buy ''ACME'' (- 5) 10 (5, 1, 2024)]) ''ACME''
     = Some \<lparr>h_name = ''ACME'', lots = [(- 5, 10, (5, 1, 2024))], total_shares = - 5,
             weighted_avg_cost = 0, total_cost = - 50, sector = ''Unknown'',
             h_currency = ''$''\<rparr>
   \<and> \<not> holding_invariant
        \<lparr>h_name = ''ACME'', lots = [(- 5, 10, (5, 1, 2024))], total_shares = - 5,
         weighted_avg_cost = 0, total_cost = - 50, sector = ''Unknown'', h_currency = ''$''\<rparr>
   \<and> weighted_avg_cost
        \<lparr>h_name = ''ACME'', lots = [(- 5, 10, (5, 1, 2024))], total_shares = - 5,
         weighted_avg_cost = 0, total_cost = - 50, sector = ''Unknown'', h_currency = ''$''\<rparr>
       * total_shares
        \<lparr>h_name = ''ACME'', lots = [(- 5, 10, (5, 1, 2024))], total_shares = - 5,
         weighted_avg_cost = 0, total_cost = - 50, sector = ''Unknown'', h_currency = ''$''\<rparr>
     \<noteq> total_cost
        \<lparr>h_name = ''ACME'', lots = [(- 5, 10, (5, 1, 2024))], total_shares = - 5,
         weighted_avg_cost = 0, total_cost = - 50, sector = ''Unknown'', h_currency = ''$''\<rparr>"
  by (simp add: ledger_eval holding_invariant_def)

section \<open>The sell analyzer: lemmas\<close>

lemmas analyzer_eval =
  analyze_sell_transactions_def group_by_symbol_def add_to_group_def sort_by_date_def
  collect_transactions_def sell_record_def Let_def buy_def sell_def json_of_def

lemma consume_lots_zero: "consume_lots 0 t q a b = (q, a, b)"
  by (cases t) auto

lemma strip_simp [simp]: "strip_account (s, p, d, a) = (s, p, d)"
  by (simp add: strip_account_def)

lemma consume_lots_queue:
  "map strip_account (fst (consume_lots r q q a b)) = sell_lots r (map strip_account q)"
proof (induction q arbitrary: r a b)
  case Nil
  then show ?case by simp
next
  case (Cons l q)
  obtain s p d acc where l: "l = (s, p, d, acc)" by (cases l) auto
  show ?case using Cons.IH by (simp add: l consume_lots_zero)
qed

lemma consume_lots_cost:
  "fst (snd (consume_lots r q q a b)) =
     a + sum_cost (map strip_account q) - sum_cost (sell_lots r (map strip_account q))"
proof (induction q arbitrary: r a b)
  case Nil
  then show ?case by simp
next
  case (Cons l q)
  obtain s p d acc where l: "l = (s, p, d, acc)" by (cases l) auto
  show ?case using Cons.IH by (simp add: l consume_lots_zero algebra_simps)
qed

lemma sell_record_fields:
  "sell_record s x sh pr cb sp = Inr r \<Longrightarrow>
   r_symbol r = s \<and> sell_date r = j_date (tx x) \<and> r_account r = tx_account x
   \<and> shares_sold r = sh \<and> sell_price r = pr"
  by (auto simp: sell_record_def Let_def split: option.splits)

lemma sell_record_total:
  "j_currency (tx x) \<noteq> None \<Longrightarrow> \<exists>r. sell_record s x sh pr cb sp = Inr r"
  by (auto simp: sell_record_def Let_def split: option.splits)

text \<open>What a step of the loop over a symbol's transactions has done when the loop returns.\<close>

lemma analyze_symbol_Cons:
  assumes "analyze_symbol s (x # txs) q = Inr rs"
  shows "\<exists>sh pr. j_shares (tx x) = Some sh \<and> j_price (tx x) = Some pr
     \<and> (j_type (tx x) = Buy \<longrightarrow>
           analyze_symbol s txs (q @ [(sh, pr, j_date (tx x), tx_account x)]) = Inr rs)
     \<and> (j_type (tx x) = Other \<longrightarrow> analyze_symbol s txs q = Inr rs)
     \<and> (j_type (tx x) = Sell \<longrightarrow>
           (\<exists>r rs'. sell_record s x sh pr (fst (snd (consume_lots sh q q 0 0)))
                       (snd (snd (consume_lots sh q q 0 0))) = Inr r
                  \<and> analyze_symbol s txs (fst (consume_lots sh q q 0 0)) = Inr rs'
                  \<and> rs = r # rs'))"
proof -
  from assms obtain sh where sh: "j_shares (tx x) = Some sh"
    by (cases "j_shares (tx x)") auto
  from assms sh obtain pr where pr: "j_price (tx x) = Some pr"
    by (cases "j_price (tx x)") auto
  have "j_type (tx x) = Buy \<longrightarrow>
           analyze_symbol s txs (q @ [(sh, pr, j_date (tx x), tx_account x)]) = Inr rs"
    using assms sh pr by auto
  moreover have "j_type (tx x) = Other \<longrightarrow> analyze_symbol s txs q = Inr rs"
    using assms sh pr by auto
  moreover have "j_type (tx x) = Sell \<longrightarrow>
           (\<exists>r rs'. sell_record s x sh pr (fst (snd (consume_lots sh q q 0 0)))
                       (snd (snd (consume_lots sh q q 0 0))) = Inr r
                  \<and> analyze_symbol s txs (fst (consume_lots sh q q 0 0)) = Inr rs'
                  \<and> rs = r # rs')"
    using assms sh pr by (auto split: prod.splits sum.splits)
  ultimately show ?thesis using sh pr by blast
qed

lemma analyze_symbol_records:
  "analyze_symbol s txs q = Inr rs \<Longrightarrow>
   map sell_date rs = map (\<lambda>x. j_date (tx x)) (sells_of txs)
   \<and> (\<forall>r \<in> set rs. r_symbol r = s)
   \<and> map (\<lambda>r. (sell_date r, r_account r, Some (shares_sold r), Some (sell_price r))) rs
       = map (\<lambda>x. (j_date (tx x), tx_account x, j_shares (tx x), j_price (tx x))) (sells_of txs)"
proof (induction txs arbitrary: q rs)
  case Nil
  then show ?case by (simp add: sells_of_def)
next
  case (Cons x txs)
  from Cons.prems obtain sh pr where
    sh: "j_shares (tx x) = Some sh" and pr: "j_price (tx x) = Some pr"
    and buy: "j_type (tx x) = Buy \<Longrightarrow>
           analyze_symbol s txs (q @ [(sh, pr, j_date (tx x), tx_account x)]) = Inr rs"
    and other: "j_type (tx x) = Other \<Longrightarrow> analyze_symbol s txs q = Inr rs"
    and sell: "j_type (tx x) = Sell \<Longrightarrow>
           \<exists>r rs'. sell_record s x sh pr (fst (snd (consume_lots sh q q 0 0)))
                       (snd (snd (consume_lots sh q q 0 0))) = Inr r
                  \<and> analyze_symbol s txs (fst (consume_lots sh q q 0 0)) = Inr rs'
                  \<and> rs = r # rs'"
    using analyze_symbol_Cons[OF Cons.prems] by blast
  show ?case
  proof (cases "j_type (tx x)")
    case Buy
    then show ?thesis using Cons.IH[OF buy[OF Buy]] by (simp add: sells_of_def)
  next
    case Sell
    from sell[OF Sell] obtain r rs' where
      r: "sell_record s x sh pr (fst (snd (consume_lots sh q q 0 0)))
            (snd (snd (consume_lots sh q q 0 0))) = Inr r"
      and rs': "analyze_symbol s txs (fst (consume_lots sh q q 0 0)) = Inr rs'"
      and eq: "rs = r # rs'"
      by blast
    show ?thesis
      using Cons.IH[OF rs'] sell_record_fields[OF r] Sell eq sh pr by (simp add: sells_of_def)
  next
    case Other
    then show ?thesis using Cons.IH[OF other[OF Other]] by (simp add: sells_of_def)
  qed
qed

lemma analyze_symbol_keys:
  assumes "analyze_symbol s txs q = Inr rs" and "\<forall>x \<in> set txs. j_symbol (tx x) = s"
  shows "map record_key rs = map sell_key (sells_of txs)"
proof -
  note r = analyze_symbol_records[OF assms(1)]
  have len: "length rs = length (sells_of txs)" using r by (metis length_map)
  show ?thesis
  proof (rule nth_equalityI)
    show "length (map record_key rs) = length (map sell_key (sells_of txs))" using len by simp
  next
    fix i assume "i < length (map record_key rs)"
    then have i: "i < length rs" by simp
    then have i': "i < length (sells_of txs)" using len by simp
    have sym: "r_symbol (rs ! i) = s" using r i by simp
    have "sells_of txs ! i \<in> set txs"
      using i' unfolding sells_of_def by (metis filter_is_subset nth_mem subsetD)
    then have sym': "j_symbol (tx (sells_of txs ! i)) = s" using assms(2) by blast
    have "map (\<lambda>r. (sell_date r, r_account r, Some (shares_sold r), Some (sell_price r))) rs ! i
          = map (\<lambda>x. (j_date (tx x), tx_account x, j_shares (tx x), j_price (tx x)))
              (sells_of txs) ! i"
      using r by simp
    then show "map record_key rs ! i = map sell_key (sells_of txs) ! i"
      using i i' sym sym' by (simp add: record_key_def sell_key_def)
  qed
qed

lemma analyze_symbol_total:
  "\<forall>x \<in> set txs. carries_keys (tx x) \<Longrightarrow> \<exists>rs. analyze_symbol s txs q = Inr rs"
proof (induction txs arbitrary: q)
  case Nil
  then show ?case by simp
next
  case (Cons x txs)
  from Cons.prems obtain sh pr where
    sh: "j_shares (tx x) = Some sh" and pr: "j_price (tx x) = Some pr"
    by (auto simp: carries_keys_def)
  show ?case
  proof (cases "j_type (tx x)")
    case Buy
    then show ?thesis using Cons sh pr by simp
  next
    case Sell
    obtain q' cb sp where c: "consume_lots sh q q 0 0 = (q', cb, sp)"
      by (cases "consume_lots sh q q 0 0") auto
    obtain r where r: "sell_record s x sh pr cb sp = Inr r"
      using sell_record_total[of x s sh pr cb sp] Cons.prems Sell
      by (auto simp: carries_keys_def)
    obtain rs' where "analyze_symbol s txs q' = Inr rs'"
      using Cons.IH[of q'] Cons.prems by auto
    then show ?thesis using Sell c r sh pr by simp
  next
    case Other
    then show ?thesis using Cons sh pr by simp
  qed
qed

text \<open>The groups of the grouping loop.\<close>

lemma group_snoc:
  "group_by_symbol (xs @ [x]) = add_to_group (group_by_symbol xs) x"
  by (simp add: group_by_symbol_def)

lemma map_of_add_to_group:
  "map_of (add_to_group g x) s =
     (if s = j_symbol (tx x)
      then Some ((case map_of g s of None \<Rightarrow> [] | Some l \<Rightarrow> l) @ [x])
      else map_of g s)"
  by (simp add: add_to_group_def Let_def AList.update_conv')

lemma map_of_group:
  "map_of (group_by_symbol xs) s =
     (if of_symbol s xs = [] then None else Some (of_symbol s xs))"
proof (induction xs rule: rev_induct)
  case Nil
  then show ?case by (simp add: group_by_symbol_def of_symbol_def)
next
  case (snoc x xs)
  then show ?case
    by (auto simp: group_snoc map_of_add_to_group of_symbol_def)
qed

lemma distinct_group: "distinct (map fst (group_by_symbol xs))"
proof (induction xs rule: rev_induct)
  case Nil
  then show ?case by (simp add: group_by_symbol_def)
next
  case (snoc x xs)
  then show ?case
    by (simp add: group_snoc add_to_group_def Let_def AList.distinct_update)
qed

lemma group_entries:
  assumes "(s, txs) \<in> set (group_by_symbol xs)"
  shows "txs = of_symbol s xs"
proof -
  have "map_of (group_by_symbol xs) s = Some txs"
    using assms distinct_group by (simp add: map_of_eq_Some_iff)
  then show ?thesis by (simp add: map_of_group split: if_splits)
qed

lemma sum_list_update:
  fixes f :: "'v \<Rightarrow> nat"
  shows "(\<Sum>p \<leftarrow> AList.update k v al. f (snd p))
           + (case map_of al k of None \<Rightarrow> 0 | Some v0 \<Rightarrow> f v0)
         = (\<Sum>p \<leftarrow> al. f (snd p)) + f v"
  by (induction al) auto

lemma sells_of_append [simp]: "sells_of (xs @ ys) = sells_of xs @ sells_of ys"
  by (simp add: sells_of_def)

lemma count_add_to_group:
  "(\<Sum>p \<leftarrow> add_to_group g x. length (sells_of (snd p)))
     = (\<Sum>p \<leftarrow> g. length (sells_of (snd p))) + length (sells_of [x])"
proof -
  let ?k = "j_symbol (tx x)"
  let ?old = "(case map_of g ?k of None \<Rightarrow> [] | Some l \<Rightarrow> l)"
  have "(\<Sum>p \<leftarrow> AList.update ?k (?old @ [x]) g. length (sells_of (snd p)))
          + (case map_of g ?k of None \<Rightarrow> 0 | Some v0 \<Rightarrow> length (sells_of v0))
        = (\<Sum>p \<leftarrow> g. length (sells_of (snd p))) + length (sells_of (?old @ [x]))"
    using sum_list_update[where f = "\<lambda>txs. length (sells_of txs)" and k = ?k and al = g
            and v = "?old @ [x]"]
    by (simp del: sells_of_append)
  moreover have "(case map_of g ?k of None \<Rightarrow> 0 | Some v0 \<Rightarrow> length (sells_of v0))
        = length (sells_of ?old)"
    by (cases "map_of g ?k") (simp_all add: sells_of_def)
  ultimately show ?thesis by (simp add: add_to_group_def Let_def)
qed

lemma count_group:
  "(\<Sum>p \<leftarrow> group_by_symbol xs. length (sells_of (snd p))) = length (sells_of xs)"
proof (induction xs rule: rev_induct)
  case Nil
  then show ?case by (simp add: group_by_symbol_def sells_of_def)
next
  case (snoc x xs)
  then show ?case by (simp add: group_snoc count_add_to_group)
qed

lemma analyze_symbol_length:
  "analyze_symbol s txs q = Inr rs \<Longrightarrow> length rs = length (sells_of txs)"
  using analyze_symbol_records[of s txs q rs] by (metis length_map)

lemma analyze_groups_length:
  "analyze_groups g = Inr rs \<Longrightarrow> length rs = (\<Sum>p \<leftarrow> g. length (sells_of (snd p)))"
proof (induction g arbitrary: rs)
  case Nil
  then show ?case by simp
next
  case (Cons p g)
  obtain k txs where p: "p = (k, txs)" by (cases p)
  from Cons.prems p obtain rs1 rs2 where
    a: "analyze_symbol k txs [] = Inr rs1" and b: "analyze_groups g = Inr rs2"
    and eq: "rs = rs1 @ rs2"
    by (auto split: sum.splits)
  show ?case using Cons.IH[OF b] analyze_symbol_length[OF a] eq p by simp
qed

lemma analyze_groups_symbol:
  "distinct (map fst g) \<Longrightarrow> analyze_groups g = Inr rs \<Longrightarrow>
   map sell_date (filter (\<lambda>r. r_symbol r = s) rs) =
     (case map_of g s of None \<Rightarrow> [] | Some txs \<Rightarrow> map (\<lambda>x. j_date (tx x)) (sells_of txs))"
proof (induction g arbitrary: rs)
  case Nil
  then show ?case by simp
next
  case (Cons p g)
  obtain k txs where p: "p = (k, txs)" by (cases p)
  from Cons.prems p obtain rs1 rs2 where
    a: "analyze_symbol k txs [] = Inr rs1" and b: "analyze_groups g = Inr rs2"
    and eq: "rs = rs1 @ rs2"
    by (auto split: sum.splits)
  have d: "distinct (map fst g)" and nk: "map_of g k = None"
    using Cons.prems(1) p by (auto simp: map_of_eq_None_iff)
  note ih = Cons.IH[OF d b]
  note r1 = analyze_symbol_records[OF a]
  show ?case
  proof (cases "s = k")
    case True
    have f1: "filter (\<lambda>r. r_symbol r = s) rs1 = rs1" using r1 True by (auto intro: filter_True)
    have "map sell_date (filter (\<lambda>r. r_symbol r = s) rs2) = []" using ih nk True by simp
    then have f2: "filter (\<lambda>r. r_symbol r = s) rs2 = []" by simp
    show ?thesis using f1 f2 r1 True eq p by simp
  next
    case False
    have f1: "filter (\<lambda>r. r_symbol r = s) rs1 = []" using r1 False by (auto simp: filter_empty_conv)
    show ?thesis using f1 ih False eq p by simp
  qed
qed

lemma analyze_groups_total:
  "\<forall>p \<in> set g. \<forall>x \<in> set (snd p). carries_keys (tx x) \<Longrightarrow> \<exists>rs. analyze_groups g = Inr rs"
proof (induction g)
  case Nil
  then show ?case by simp
next
  case (Cons p g)
  obtain k txs where p: "p = (k, txs)" by (cases p)
  obtain rs1 where a: "analyze_symbol k txs [] = Inr rs1"
    using analyze_symbol_total[of txs k "[]"] Cons.prems p by auto
  obtain rs2 where b: "analyze_groups g = Inr rs2"
    using Cons.IH Cons.prems by auto
  show ?case using a b p by simp
qed

lemma set_sort_by_date [simp]: "set (sort_by_date xs) = set xs"
  by (simp add: sort_by_date_def)

lemma tx_collect:
  "map tx (collect_transactions accounts) = concat (map a_transactions accounts)"
  by (induction accounts) (simp_all add: collect_transactions_def comp_def)

lemma sells_collect:
  "length (sells_of (sort_by_date (collect_transactions accounts)))
     = length (filter (\<lambda>t. j_type t = Sell) (concat (map a_transactions accounts)))"
proof -
  have 1: "length (sells_of (sort_by_date xs)) = length (filter (\<lambda>x. j_type (tx x) = Sell) xs)"
    for xs
    by (simp add: sells_of_def sort_by_date_def filter_sort)
  have 2: "length (filter (\<lambda>x. j_type (tx x) = Sell) xs)
             = length (filter (\<lambda>t. j_type t = Sell) (map tx xs))" for xs
    by (simp add: filter_map comp_def)
  show ?thesis unfolding 1 2 tx_collect ..
qed

lemma sorted_symbol_sells:
  "sorted (map (\<lambda>x. strptime (j_date (tx x))) (sells_of (of_symbol s (sort_by_date xs))))"
  unfolding sells_of_def of_symbol_def sort_by_date_def
  by (intro sorted_filter) simp

text \<open>The keys of the groups, and the groups in closed form.\<close>

lemma set_first_appearance [simp]: "set (first_appearance ys) = set ys"
  by (induction ys) auto

lemma first_appearance_snoc:
  "first_appearance (ys @ [y]) =
     (if y \<in> set ys then first_appearance ys else first_appearance ys @ [y])"
  by (induction ys) auto

lemma keys_add_to_group:
  "map fst (add_to_group g x) =
     (if j_symbol (tx x) \<in> set (map fst g) then map fst g else map fst g @ [j_symbol (tx x)])"
  by (simp add: add_to_group_def Let_def AList.update_keys)

lemma keys_group:
  "map fst (group_by_symbol xs) = first_appearance (map (\<lambda>x. j_symbol (tx x)) xs)"
proof (induction xs rule: rev_induct)
  case Nil
  then show ?case by (simp add: group_by_symbol_def)
next
  case (snoc x xs)
  have "set (map fst (group_by_symbol xs)) = (\<lambda>x. j_symbol (tx x)) ` set xs"
    by (simp add: snoc)
  then show ?case
    using snoc by (simp add: group_snoc keys_add_to_group first_appearance_snoc)
qed

lemma group_closed_form:
  "group_by_symbol xs =
     map (\<lambda>s. (s, of_symbol s xs)) (first_appearance (map (\<lambda>x. j_symbol (tx x)) xs))"
proof -
  have "map (\<lambda>p. (fst p, of_symbol (fst p) xs)) (group_by_symbol xs) = group_by_symbol xs"
  proof (rule map_idI)
    fix p assume "p \<in> set (group_by_symbol xs)"
    then have "snd p = of_symbol (fst p) xs"
      using group_entries[of "fst p" "snd p" xs] by simp
    then show "(fst p, of_symbol (fst p) xs) = p"
      by (metis prod.collapse)
  qed
  then have "group_by_symbol xs = map (\<lambda>s. (s, of_symbol s xs)) (map fst (group_by_symbol xs))"
    by (simp add: comp_def)
  then show ?thesis by (simp only: keys_group)
qed

lemma analyze_groups_keys:
  "\<forall>p \<in> set g. \<forall>x \<in> set (snd p). j_symbol (tx x) = fst p \<Longrightarrow> analyze_groups g = Inr rs \<Longrightarrow>
   map record_key rs = concat (map (\<lambda>p. map sell_key (sells_of (snd p))) g)"
proof (induction g arbitrary: rs)
  case Nil
  then show ?case by simp
next
  case (Cons p g)
  obtain k txs where p: "p = (k, txs)" by (cases p)
  from Cons.prems(2) p obtain rs1 rs2 where
    a: "analyze_symbol k txs [] = Inr rs1" and b: "analyze_groups g = Inr rs2"
    and eq: "rs = rs1 @ rs2"
    by (auto split: sum.splits)
  have k: "\<forall>x \<in> set txs. j_symbol (tx x) = k" using Cons.prems(1) p by simp
  have g: "\<forall>p \<in> set g. \<forall>x \<in> set (snd p). j_symbol (tx x) = fst p" using Cons.prems(1) by simp
  show ?case
    using Cons.IH[OF g b] analyze_symbol_keys[OF a k] eq p by simp
qed

lemma analyze_keys_grouped:
  assumes "analyze_groups (group_by_symbol xs) = Inr rs"
  shows "map record_key rs = map sell_key (grouped_sells xs)"
proof -
  have "\<forall>p \<in> set (group_by_symbol xs). \<forall>x \<in> set (snd p). j_symbol (tx x) = fst p"
  proof (intro ballI)
    fix p x assume p: "p \<in> set (group_by_symbol xs)" and x: "x \<in> set (snd p)"
    have "snd p = of_symbol (fst p) xs" using group_entries[of "fst p" "snd p" xs] p by simp
    then show "j_symbol (tx x) = fst p" using x by (simp add: of_symbol_def)
  qed
  from analyze_groups_keys[OF this assms]
  have "map record_key rs
          = concat (map (\<lambda>p. map sell_key (sells_of (snd p))) (group_by_symbol xs))" .
  also have "\<dots> = concat (map (\<lambda>s. map sell_key (sells_of (of_symbol s xs)))
                       (first_appearance (map (\<lambda>x. j_symbol (tx x)) xs)))"
    by (subst group_closed_form) (simp add: comp_def)
  also have "\<dots> = map sell_key (grouped_sells xs)"
    by (simp add: grouped_sells_def map_concat comp_def)
  finally show ?thesis .
qed

section \<open>Claim C2: Buy appends, Sell drains from the head\<close>

text \<open>
  Claim C2. A Buy appends the lot (shares, price, date) at the tail of the queue of its symbol.
  A Sell drains the queue from the head: a head lot with no more shares than remain to sell is
  popped, a larger one is reduced in place and keeps its price and date; nothing is sold of a
  non-positive request or from an empty queue. The analyzer's queue follows the same loop, and
  its cost basis is the cost of the lots consumed. On the scenario (Buy 10 at 100, Buy 5 at 120,
  Sell 12 at 150 with fee 5) the Sell takes the 10 shares of the first lot and 2 of the second:
  cost basis 1240, gross proceeds 1800, net proceeds 1795, realized profit 555, and one lot of
  3 shares at 120 remains.
\<close>

theorem fifo_buy_appends_sell_drains:
  "(t_type t = Buy \<longrightarrow>
      lots (apply_transaction h t) = lots h @ [(t_shares t, t_price t, t_date t)])
   \<and> (t_type t = Sell \<longrightarrow> lots (apply_transaction h t) = sell_lots (t_shares t) (lots h))
   \<and> (0 < r \<and> lot_shares \<le> r \<longrightarrow>
        sell_lots r ((lot_shares, lot_price, lot_date) # rest) = sell_lots (r - lot_shares) rest)
   \<and> (0 < r \<and> r < lot_shares \<longrightarrow>
        sell_lots r ((lot_shares, lot_price, lot_date) # rest)
          = (lot_shares - r, lot_price, lot_date) # rest)
   \<and> (r \<le> 0 \<longrightarrow> sell_lots r queue = queue)
   \<and> sell_lots r [] = []
   \<and> map strip_account (fst (consume_lots r buy_queue buy_queue 0 0))
       = sell_lots r (map strip_account buy_queue)
   \<and> fst (snd (consume_lots r buy_queue buy_queue 0 0))
       = sum_cost (map strip_account buy_queue)
         - sum_cost (sell_lots r (map strip_account buy_queue))
   \<and> sell_lots 12 [(10, 100, (5, 1, 2024)), (5, 120, (10, 2, 2024))] = [(3, 120, (10, 2, 2024))]
   \<and> process_transactions [] scenario =
       [(''ACME'', \<lparr>h_name = ''ACME'', lots = [(3, 120, (10, 2, 2024))], total_shares = 3,
                   weighted_avg_cost = 120, total_cost = 360, sector = ''Unknown'',
                   h_currency = ''$''\<rparr>)]
   \<and> analyze_sell_transactions [scenario_account] =
       Inr [\<lparr>r_symbol = ''ACME'', sell_date = (1, 3, 2024), r_account = ''Broker'',
             shares_sold = 12, sell_price = 150, gross_proceeds = 1800, fees = 5,
             net_proceeds = 1795, r_weighted_avg_cost = 310 / 3, total_cost_basis = 1240,
             realized_pnl = 555, realized_pnl_pct = 2775 / 62, r_currency = ''$''\<rparr>]"
proof -
  have a: "t_type t = Buy \<longrightarrow>
      lots (apply_transaction h t) = lots h @ [(t_shares t, t_price t, t_date t)]"
    by (simp add: lots_apply)
  have b: "t_type t = Sell \<longrightarrow> lots (apply_transaction h t) = sell_lots (t_shares t) (lots h)"
    by (simp add: lots_apply)
  have c: "r \<le> 0 \<longrightarrow> sell_lots r queue = queue"
    by (cases queue) auto
  have d: "process_transactions [] scenario =
       [(''ACME'', \<lparr>h_name = ''ACME'', lots = [(3, 120, (10, 2, 2024))], total_shares = 3,
                   weighted_avg_cost = 120, total_cost = 360, sector = ''Unknown'',
                   h_currency = ''$''\<rparr>)]"
    by (simp add: scenario_def ledger_eval)
  have e: "analyze_sell_transactions [scenario_account] =
       Inr [\<lparr>r_symbol = ''ACME'', sell_date = (1, 3, 2024), r_account = ''Broker'',
             shares_sold = 12, sell_price = 150, gross_proceeds = 1800, fees = 5,
             net_proceeds = 1795, r_weighted_avg_cost = 310 / 3, total_cost_basis = 1240,
             realized_pnl = 555, realized_pnl_pct = 2775 / 62, r_currency = ''$''\<rparr>]"
    by (simp add: scenario_account_def scenario_def analyzer_eval)
  show ?thesis
    using a b c d e consume_lots_queue[of r buy_queue 0 0] consume_lots_cost[of r buy_queue 0 0]
    by simp
qed

text \<open>
  The general part at the scenario: the second Buy is appended, the Sell of 12 pops the lot of
  10 and splits the lot of 5.
\<close>

theorem fifo_scenario_witness:
  "t_type (buy ''ACME'' 5 120 (10, 2, 2024)) = Buy
   \<and> lots (apply_transaction (default_holding\<lparr>lots := [(10, 100, (5, 1, 2024))]\<rparr>)
             (buy ''ACME'' 5 120 (10, 2, 2024)))
       = [(10, 100, (5, 1, 2024)), (5, 120, (10, 2, 2024))]
   \<and> (0::real) < 12 \<and> (10::real) \<le> 12
   \<and> sell_lots 12 [(10, 100, (5, 1, 2024)), (5, 120, (10, 2, 2024))]
       = sell_lots 2 [(5, 120, (10, 2, 2024))]
   \<and> (0::real) < 2 \<and> (2::real) < 5
   \<and> sell_lots 2 [(5, 120, (10, 2, 2024))] = [(3, 120, (10, 2, 2024))]"
proof -
  let ?b = "buy ''ACME'' 5 120 (10, 2, 2024)"
  let ?h = "default_holding\<lparr>lots := [(10, 100, (5, 1, 2024))]\<rparr>"
  have b: "t_type ?b = Buy" by (simp add: buy_def)
  have "lots (apply_transaction ?h ?b) = lots ?h @ [(t_shares ?b, t_price ?b, t_date ?b)]"
    using fifo_buy_appends_sell_drains[of ?b ?h] b by blast
  then have l: "lots (apply_transaction ?h ?b)
       = [(10, 100, (5, 1, 2024)), (5, 120, (10, 2, 2024))]"
    by (simp add: buy_def)
  have p: "(0::real) < 12" "(10::real) \<le> 12" "(0::real) < 2" "(2::real) < 5" by simp_all
  have "sell_lots 12 ((10, 100, (5, 1, 2024)) # [(5, 120, (10, 2, 2024))])
       = sell_lots (12 - 10) [(5, 120, (10, 2, 2024))]"
    using fifo_buy_appends_sell_drains
            [of ?b ?h 12 10 100 "(5, 1, 2024)" "[(5, 120, (10, 2, 2024))]"] p
    by blast
  then have s1: "sell_lots 12 [(10, 100, (5, 1, 2024)), (5, 120, (10, 2, 2024))]
       = sell_lots 2 [(5, 120, (10, 2, 2024))]"
    by simp
  have "sell_lots 2 ((5, 120, (10, 2, 2024)) # []) = (5 - 2, 120, (10, 2, 2024)) # []"
    using fifo_buy_appends_sell_drains[of ?b ?h 2 5 120 "(10, 2, 2024)" "[]"] p
    by blast
  then have s2: "sell_lots 2 [(5, 120, (10, 2, 2024))] = [(3, 120, (10, 2, 2024))]"
    by simp
  show ?thesis using b l p s1 s2 by (intro conjI)
qed

section \<open>Claim C5: the records of the sell analyzer\<close>

text \<open>
  Where a transaction lacks a key the loop reads by subscript, no record is returned: a
  dividend without shares after a Buy and a Sell stops the analyzer with \<open>KeyError\<close>.
\<close>

lemma dividend_without_shares_raises:
  "analyze_sell_transactions [dividend_account] = Inl KeyError"
  by (simp add: dividend_account_def analyzer_eval)

text \<open>
  Claim C5, as amended. When every transaction carries shares and a price and every Sell a
  currency, the analyzer returns exactly one record per Sell transaction, with the symbol,
  date, account, shares and price of its Sell. The records are grouped by symbol, the symbols
  in the order of their first appearance in the date-sorted stream of transactions, and within
  a symbol they are in the order of that stream: chronological by the sells' dates. Across
  symbols they are not ordered by date.
\<close>

theorem analyzer_records:
  assumes keys: "\<forall>a \<in> set accounts. \<forall>t \<in> set (a_transactions a). carries_keys t"
  shows "\<exists>rs. analyze_sell_transactions accounts = Inr rs
     \<and> length rs = length (filter (\<lambda>t. j_type t = Sell) (concat (map a_transactions accounts)))
     \<and> map record_key rs
         = map sell_key (grouped_sells (sort_by_date (collect_transactions accounts)))
     \<and> (\<forall>s. map sell_date (filter (\<lambda>r. r_symbol r = s) rs)
              = map (\<lambda>x. j_date (tx x))
                  (sells_of (of_symbol s (sort_by_date (collect_transactions accounts))))
            \<and> sorted (map (\<lambda>r. strptime (sell_date r)) (filter (\<lambda>r. r_symbol r = s) rs)))"
proof -
  let ?xs = "sort_by_date (collect_transactions accounts)"
  let ?g = "group_by_symbol ?xs"
  have c: "\<forall>x \<in> set ?xs. carries_keys (tx x)"
    using keys by (auto simp: collect_transactions_def)
  have "\<forall>p \<in> set ?g. \<forall>x \<in> set (snd p). carries_keys (tx x)"
  proof (intro ballI)
    fix p x assume p: "p \<in> set ?g" and x: "x \<in> set (snd p)"
    have "snd p = of_symbol (fst p) ?xs" using group_entries[of "fst p" "snd p" ?xs] p by simp
    then have "x \<in> set ?xs" using x by (simp add: of_symbol_def)
    then show "carries_keys (tx x)" using c by blast
  qed
  then obtain rs where rs: "analyze_groups ?g = Inr rs"
    using analyze_groups_total by blast
  have len: "length rs = length (filter (\<lambda>t. j_type t = Sell) (concat (map a_transactions accounts)))"
    using analyze_groups_length[OF rs] by (simp add: count_group sells_collect)
  have grouped: "map record_key rs = map sell_key (grouped_sells ?xs)"
    by (rule analyze_keys_grouped[OF rs])
  have dates: "map sell_date (filter (\<lambda>r. r_symbol r = s) rs)
              = map (\<lambda>x. j_date (tx x)) (sells_of (of_symbol s ?xs))" for s
    using analyze_groups_symbol[OF distinct_group rs, of s]
    by (auto simp: map_of_group sells_of_def)
  have srt: "sorted (map (\<lambda>r. strptime (sell_date r)) (filter (\<lambda>r. r_symbol r = s) rs))" for s
  proof -
    have "map (\<lambda>r. strptime (sell_date r)) (filter (\<lambda>r. r_symbol r = s) rs)
          = map strptime (map sell_date (filter (\<lambda>r. r_symbol r = s) rs))"
      by simp
    also have "\<dots> = map (\<lambda>x. strptime (j_date (tx x))) (sells_of (of_symbol s ?xs))"
      by (simp only: dates) simp
    finally show ?thesis using sorted_symbol_sells[of s "collect_transactions accounts"] by simp
  qed
  show ?thesis
    using rs len grouped dates srt by (auto simp: analyze_sell_transactions_def)
qed

text \<open>
  The amended claim on the account with two symbols: two Sells, two records, the Sell of AAA
  (the symbol seen first) before the Sell of BBB.
\<close>

theorem analyzer_records_witness:
  "length (filter (\<lambda>t. j_type t = Sell) (concat (map a_transactions [two_symbol_account]))) = 2
   \<and> map sell_key (grouped_sells (sort_by_date (collect_transactions [two_symbol_account])))
       = [(''AAA'', (1, 3, 2024), ''Broker'', Some 3, Some 120),
          (''BBB'', (1, 2, 2024), ''Broker'', Some 4, Some 60)]
   \<and> (\<exists>rs. analyze_sell_transactions [two_symbol_account] = Inr rs \<and> length rs = 2
          \<and> map record_key rs
              = [(''AAA'', (1, 3, 2024), ''Broker'', Some 3, Some 120),
                 (''BBB'', (1, 2, 2024), ''Broker'', Some 4, Some 60)]
          \<and> sorted (map (\<lambda>r. strptime (sell_date r)) (filter (\<lambda>r. r_symbol r = ''AAA'') rs)))"
proof -
  have keys: "\<forall>a \<in> set [two_symbol_account]. \<forall>t \<in> set (a_transactions a). carries_keys t"
    by (simp add: two_symbol_account_def carries_keys_def buy_def sell_def json_of_def)
  have n: "length (filter (\<lambda>t. j_type t = Sell)
             (concat (map a_transactions [two_symbol_account]))) = 2"
    by (simp add: two_symbol_account_def buy_def sell_def json_of_def)
  have g: "map sell_key (grouped_sells (sort_by_date (collect_transactions [two_symbol_account])))
       = [(''AAA'', (1, 3, 2024), ''Broker'', Some 3, Some 120),
          (''BBB'', (1, 2, 2024), ''Broker'', Some 4, Some 60)]"
    by (simp add: two_symbol_account_def grouped_sells_def sells_of_def of_symbol_def
          sell_key_def sort_by_date_def collect_transactions_def buy_def sell_def json_of_def)
  from analyzer_records[OF keys] obtain rs where
    a: "analyze_sell_transactions [two_symbol_account] = Inr rs"
    and l: "length rs
              = length (filter (\<lambda>t. j_type t = Sell)
                  (concat (map a_transactions [two_symbol_account])))"
    and k: "map record_key rs
              = map sell_key (grouped_sells (sort_by_date (collect_transactions [two_symbol_account])))"
    and s: "sorted (map (\<lambda>r. strptime (sell_date r)) (filter (\<lambda>r. r_symbol r = ''AAA'') rs))"
    by blast
  show ?thesis using n g a l k s by auto
qed

text \<open>
  The claim as first stated fails: on the account with two symbols the record of the Sell of
  2024-03-01 comes before the record of the Sell of 2024-02-01.
\<close>

theorem analyzer_order_counterexample:
  "map_sum id (map sell_date) (analyze_sell_transactions [two_symbol_account])
     = Inr [(1, 3, 2024), (1, 2, 2024)]
   \<and> \<not> sorted (map strptime [(1, 3, 2024), (1, 2, 2024)])"
  by (simp add: two_symbol_account_def analyzer_eval)

section \<open>Claim C6: the currency converter\<close>

lemma currency_code_dollar: "currency_code ''$'' = ''USD''"
  by (simp add: currency_code_def currency_map_def)

lemma currency_code_euro: "currency_code euro_sign = ''EUR''"
  by (simp add: currency_code_def currency_map_def euro_sign_def)

text \<open>
  Claim C6. \<^verbatim>\<open>convert_to_usd\<close> returns a dollar amount unchanged and \<^verbatim>\<open>convert_to_eur\<close> a
  euro amount unchanged; both return 0 for the amount 0 in any currency; and for a currency
  whose code is absent from the rate table (the table of rates to USD for the first, the table
  under \<^verbatim>\<open>EUR_RATES\<close>, or that table missing, for the second) both use the rate 1 and return
  the amount unchanged.
\<close>

theorem conversion_identities:
  "convert_to_usd x ''$'' rates = Inr x
   \<and> convert_to_eur x euro_sign rates = Inr x
   \<and> convert_to_usd 0 c rates = Inr 0
   \<and> convert_to_eur 0 c rates = Inr 0
   \<and> (map_of rates (currency_code c) = None \<longrightarrow> convert_to_usd x c rates = Inr x)
   \<and> (map_of rates ''EUR_RATES'' = None
        \<or> (\<exists>eur_rates. map_of rates ''EUR_RATES'' = Some (Rates eur_rates)
              \<and> map_of eur_rates (currency_code c) = None)
       \<longrightarrow> convert_to_eur x c rates = Inr x)"
  by (auto simp: convert_to_usd_def convert_to_eur_def currency_code_dollar currency_code_euro Let_def)

text \<open>The claim on the static rate table, for the Swiss franc, which it does not list.\<close>

theorem conversion_identities_witness:
  "map_of static_exchange_rates (currency_code ''CHF'') = None
   \<and> convert_to_usd 250 ''CHF'' static_exchange_rates = Inr 250
   \<and> map_of static_exchange_rates ''EUR_RATES''
       = Some (Rates [(''USD'', 0.91), (''EUR'', 1.0), (''RON'', 0.20), (''GBP'', 1.14),
                      (''JPY'', 0.0064)])
   \<and> map_of [(''USD'', 0.91), (''EUR'', 1.0), (''RON'', 0.20), (''GBP'', 1.14),
              (''JPY'', 0.0064 :: real)] (currency_code ''CHF'') = None
   \<and> convert_to_eur 250 ''CHF'' static_exchange_rates = Inr 250
   \<and> convert_to_usd 250 ''$'' static_exchange_rates = Inr 250
   \<and> convert_to_usd 0 ''RON'' static_exchange_rates = Inr 0"
proof -
  have c: "currency_code ''CHF'' = ''CHF''"
    by (simp add: currency_code_def currency_map_def euro_sign_def pound_sign_def yen_sign_def)
  have a: "map_of static_exchange_rates (currency_code ''CHF'') = None"
    by (simp add: c static_exchange_rates_def pound_sign_def yen_sign_def)
  have b: "map_of static_exchange_rates ''EUR_RATES''
       = Some (Rates [(''USD'', 0.91), (''EUR'', 1.0), (''RON'', 0.20), (''GBP'', 1.14),
                      (''JPY'', 0.0064)])"
    by (simp add: static_exchange_rates_def pound_sign_def yen_sign_def)
  have d: "map_of [(''USD'', 0.91), (''EUR'', 1.0), (''RON'', 0.20), (''GBP'', 1.14),
              (''JPY'', 0.0064 :: real)] (currency_code ''CHF'') = None"
    by (simp add: c)
  note t = conversion_identities[of 250 static_exchange_rates "''CHF''"]
  note t0 = conversion_identities[of 0 static_exchange_rates "''RON''"]
  have u: "convert_to_usd 250 ''CHF'' static_exchange_rates = Inr 250" using t a by blast
  have e: "convert_to_eur 250 ''CHF'' static_exchange_rates = Inr 250" using t b d by blast
  have i: "convert_to_usd 250 ''$'' static_exchange_rates = Inr 250" using t by blast
  have z: "convert_to_usd 0 ''RON'' static_exchange_rates = Inr 0" using t0 by blast
  show ?thesis using a u b d e i z by (intro conjI)
qed

section \<open>Claim C9: the fields of the second pass\<close>

text \<open>
  Claim C9. \<^verbatim>\<open>calculate_unrealized_pnl\<close> keeps every record. For a record whose symbol has
  no current price, \<open>current_price\<close>, \<open>current_market_value\<close>, \<open>current_net_proceeds\<close>,
  \<open>unrealized_pnl\<close>, \<open>unrealized_pnl_pct\<close> and \<open>opportunity_difference\<close> are \<open>None\<close>,
  not zero. For a record whose symbol has the price \<open>p\<close>, the unrealized profit is
  \<open>shares_sold * p - fees - total_cost_basis\<close> and \<open>opportunity_difference\<close> is the
  unrealized profit minus the realized one.
\<close>

theorem unrealized_fields:
  assumes "i < length sell_results"
  shows "length (calculate_unrealized_pnl sell_results current_prices) = length sell_results
    \<and> result (calculate_unrealized_pnl sell_results current_prices ! i) = sell_results ! i
    \<and> (price_of current_prices (r_symbol (sell_results ! i)) = None \<longrightarrow>
         current_price (calculate_unrealized_pnl sell_results current_prices ! i) = None
         \<and> current_market_value (calculate_unrealized_pnl sell_results current_prices ! i) = None
         \<and> current_net_proceeds (calculate_unrealized_pnl sell_results current_prices ! i) = None
         \<and> unrealized_pnl (calculate_unrealized_pnl sell_results current_prices ! i) = None
         \<and> unrealized_pnl_pct (calculate_unrealized_pnl sell_results current_prices ! i) = None
         \<and> opportunity_difference (calculate_unrealized_pnl sell_results current_prices ! i) = None)
    \<and> (\<forall>p. price_of current_prices (r_symbol (sell_results ! i)) = Some p \<longrightarrow>
         (\<exists>u. unrealized_pnl (calculate_unrealized_pnl sell_results current_prices ! i) = Some u
              \<and> u = shares_sold (sell_results ! i) * p - fees (sell_results ! i)
                      - total_cost_basis (sell_results ! i)
              \<and> opportunity_difference (calculate_unrealized_pnl sell_results current_prices ! i)
                  = Some (u - realized_pnl (sell_results ! i))))"
  using assms
  by (cases "price_of current_prices (r_symbol (sell_results ! i))")
     (simp_all add: calculate_unrealized_pnl_def add_unrealized_def Let_def)

text \<open>
  The claim on the record of the scenario, priced at 200, and on a copy of it under a symbol
  without a price.
\<close>

theorem unrealized_fields_witness:
  "price_of [(''ACME'', Some 200), (''GONE'', None)] ''GONE'' = None
   \<and> current_price
        (calculate_unrealized_pnl [scenario_sell_result, scenario_sell_result\<lparr>r_symbol := ''GONE''\<rparr>]
           [(''ACME'', Some 200), (''GONE'', None)] ! 1) = None
   \<and> opportunity_difference
        (calculate_unrealized_pnl [scenario_sell_result, scenario_sell_result\<lparr>r_symbol := ''GONE''\<rparr>]
           [(''ACME'', Some 200), (''GONE'', None)] ! 1) = None
   \<and> price_of [(''ACME'', Some 200), (''GONE'', None)] ''ACME'' = Some 200
   \<and> opportunity_difference
        (calculate_unrealized_pnl [scenario_sell_result, scenario_sell_result\<lparr>r_symbol := ''GONE''\<rparr>]
           [(''ACME'', Some 200), (''GONE'', None)] ! 0) = Some 600"
proof -
  let ?rs = "[scenario_sell_result, scenario_sell_result\<lparr>r_symbol := ''GONE''\<rparr>]"
  let ?cp = "[(''ACME'', Some 200), (''GONE'', None :: real option)]"
  have i1: "1 < length ?rs" and i0: "0 < length ?rs" by simp_all
  have s1: "r_symbol (?rs ! 1) = ''GONE''" and s0: "r_symbol (?rs ! 0) = ''ACME''"
    by (simp_all add: scenario_sell_result_def)
  have p1: "price_of ?cp ''GONE'' = None" and p0: "price_of ?cp ''ACME'' = Some 200"
    by (simp_all add: price_of_def)
  have n: "current_price (calculate_unrealized_pnl ?rs ?cp ! 1) = None"
      "opportunity_difference (calculate_unrealized_pnl ?rs ?cp ! 1) = None"
    using unrealized_fields[OF i1, of ?cp] p1 s1 by simp_all
  obtain u where u: "u = shares_sold (?rs ! 0) * 200 - fees (?rs ! 0) - total_cost_basis (?rs ! 0)"
    and o: "opportunity_difference (calculate_unrealized_pnl ?rs ?cp ! 0)
              = Some (u - realized_pnl (?rs ! 0))"
    using unrealized_fields[OF i0, of ?cp] p0 s0 by auto
  have "u - realized_pnl (?rs ! 0) = 600" using u by (simp add: scenario_sell_result_def)
  then have o': "opportunity_difference (calculate_unrealized_pnl ?rs ?cp ! 0) = Some 600"
    using o by simp
  show ?thesis using p1 n p0 o' by (intro conjI)
qed

section \<open>The performance series: lemmas\<close>

lemma sp500_lookup_ok:
  assumes "cache_ok mk cache"
  shows "fst (sp500_lookup mk cache y m) = sp500_price_of mk (y, m)"
    and "cache_ok mk (snd (sp500_lookup mk cache y m))"
  using assms
  by (auto simp: sp500_lookup_def cache_ok_def sp500_price_of_def Let_def AList.update_conv'
           split: option.splits)

lemma month_step_facts:
  assumes "month_step mk pd st ym = Inr (row, st')"
  shows "monthly_return row =
           (case previous_avg_pct_gain_loss st of
              Some previous \<Rightarrow> avg_of mk pd ym - previous | None \<Rightarrow> avg_of mk pd ym)"
    and "previous_avg_pct_gain_loss st' = Some (avg_of mk pd ym)"
    and "cumulative_factor st' = cumulative_factor st * (1 + monthly_return row)"
    and "benchmark_factor st' = benchmark_factor st * (1 + sp500_monthly_return row)"
    and "cumulative_return row = cumulative_factor st' - 1"
    and "benchmark_cumulative row = benchmark_factor st' - 1"
    and "alpha row = cumulative_return row - benchmark_cumulative row"
    and "outperformance row = monthly_return row - sp500_monthly_return row"
    and "row_month row = ym"
proof -
  obtain y m where ym: "ym = (y, m)" by (cases ym)
  obtain perf where perf: "compute_portfolio_performance mk pd m y (pd_exchange_rates pd) = Inr perf"
    using assms ym by (auto simp: month_step_def split: sum.splits)
  obtain p c where l: "sp500_lookup mk (sp500_cache st) y m = (p, c)"
    by (cases "sp500_lookup mk (sp500_cache st) y m")
  have a: "avg_of mk pd ym = avg_pct_gain_loss perf" using perf ym by (simp add: avg_of_def)
  have e: "month_step mk pd st (y, m) = Inr (row, st')" using assms ym by simp
  note [simp] = month_step_def perf l Let_def
  show "monthly_return row =
           (case previous_avg_pct_gain_loss st of
              Some previous \<Rightarrow> avg_of mk pd ym - previous | None \<Rightarrow> avg_of mk pd ym)"
    using e a by (auto split: option.splits)
  show "previous_avg_pct_gain_loss st' = Some (avg_of mk pd ym)" using e a by auto
  show "cumulative_factor st' = cumulative_factor st * (1 + monthly_return row)" using e by auto
  show "benchmark_factor st' = benchmark_factor st * (1 + sp500_monthly_return row)"
    using e by auto
  show "cumulative_return row = cumulative_factor st' - 1" using e by auto
  show "benchmark_cumulative row = benchmark_factor st' - 1" using e by auto
  show "alpha row = cumulative_return row - benchmark_cumulative row" using e by auto
  show "outperformance row = monthly_return row - sp500_monthly_return row" using e by auto
  show "row_month row = ym" using e ym by auto
qed

lemma month_step_benchmark:
  assumes "month_step mk pd st ym = Inr (row, st')" and "cache_ok mk (sp500_cache st)"
  shows "sp500_monthly_return row =
           price_ratio_return (previous_sp500_price st) (sp500_price_of mk ym)"
    and "previous_sp500_price st' =
           (case sp500_price_of mk ym of
              None \<Rightarrow> previous_sp500_price st
            | Some price \<Rightarrow> if price \<noteq> 0 then Some price else previous_sp500_price st)"
    and "cache_ok mk (sp500_cache st')"
proof -
  obtain y m where ym: "ym = (y, m)" by (cases ym)
  obtain p c where l: "sp500_lookup mk (sp500_cache st) y m = (p, c)"
    by (cases "sp500_lookup mk (sp500_cache st) y m")
  have p: "p = sp500_price_of mk ym" and c: "cache_ok mk c"
    using sp500_lookup_ok[OF assms(2), of y m] l ym by simp_all
  show "sp500_monthly_return row =
           price_ratio_return (previous_sp500_price st) (sp500_price_of mk ym)"
    using assms(1) ym l p
    by (auto simp: month_step_def Let_def price_ratio_return_def split: sum.splits option.splits)
  show "previous_sp500_price st' =
           (case sp500_price_of mk ym of
              None \<Rightarrow> previous_sp500_price st
            | Some price \<Rightarrow> if price \<noteq> 0 then Some price else previous_sp500_price st)"
    using assms(1) ym l p
    by (auto simp: month_step_def Let_def split: sum.splits option.splits)
  show "cache_ok mk (sp500_cache st')"
    using assms(1) ym l c
    by (auto simp: month_step_def Let_def split: sum.splits)
qed

lemma performance_rows_Cons:
  assumes "performance_rows mk pd st (ym # months) = Inr (rows, fin)"
  obtains row st' rows' where "month_step mk pd st ym = Inr (row, st')"
    and "performance_rows mk pd st' months = Inr (rows', fin)" and "rows = row # rows'"
  using assms by (auto split: sum.splits prod.splits)

lemma performance_rows_length:
  "performance_rows mk pd st months = Inr (rows, fin) \<Longrightarrow> length rows = length months"
proof (induction months arbitrary: st rows)
  case Nil
  then show ?case by simp
next
  case (Cons ym months)
  from Cons.prems obtain row st' rows' where
    "performance_rows mk pd st' months = Inr (rows', fin)" "rows = row # rows'"
    by (rule performance_rows_Cons)
  then show ?case using Cons.IH by simp
qed

lemma compounding_from:
  "performance_rows mk pd st months = Inr (rows, fin) \<Longrightarrow> n < length rows \<Longrightarrow>
   cumulative_return (rows ! n)
     = cumulative_factor st * (\<Prod>r \<leftarrow> take (Suc n) rows. 1 + monthly_return r) - 1
   \<and> benchmark_cumulative (rows ! n)
     = benchmark_factor st * (\<Prod>r \<leftarrow> take (Suc n) rows. 1 + sp500_monthly_return r) - 1
   \<and> alpha (rows ! n) = cumulative_return (rows ! n) - benchmark_cumulative (rows ! n)"
proof (induction months arbitrary: st rows n)
  case Nil
  then show ?case by simp
next
  case (Cons ym months)
  from Cons.prems(1) obtain row st' rows' where
    s: "month_step mk pd st ym = Inr (row, st')"
    and r: "performance_rows mk pd st' months = Inr (rows', fin)" and e: "rows = row # rows'"
    by (rule performance_rows_Cons)
  note f = month_step_facts[OF s]
  show ?case
  proof (cases n)
    case 0
    then show ?thesis using f e by simp
  next
    case (Suc k)
    then have "k < length rows'" using Cons.prems(2) e by simp
    from Cons.IH[OF r this] show ?thesis using f e Suc by (simp add: mult.assoc)
  qed
qed

lemma performance_rows_snoc:
  "performance_rows mk pd st (months @ [ym]) =
     (case performance_rows mk pd st months of
        Inl e \<Rightarrow> Inl e
      | Inr (rows, st') \<Rightarrow>
          (case month_step mk pd st' ym of
             Inl e \<Rightarrow> Inl e
           | Inr (row, st'') \<Rightarrow> Inr (rows @ [row], st'')))"
  by (induction months arbitrary: st) (auto split: sum.splits prod.splits)

lemma performance_rows_prefix:
  "performance_rows mk pd st months = Inr (rows, fin) \<Longrightarrow> k \<le> length months \<Longrightarrow>
   \<exists>st_k. performance_rows mk pd st (take k months) = Inr (take k rows, st_k)
          \<and> performance_rows mk pd st_k (drop k months) = Inr (drop k rows, fin)"
proof (induction months arbitrary: st rows k)
  case Nil
  then show ?case by simp
next
  case (Cons ym months)
  from Cons.prems(1) obtain row st' rows' where
    s: "month_step mk pd st ym = Inr (row, st')"
    and r: "performance_rows mk pd st' months = Inr (rows', fin)" and e: "rows = row # rows'"
    by (rule performance_rows_Cons)
  show ?case
  proof (cases k)
    case 0
    then show ?thesis using Cons.prems(1) by simp
  next
    case (Suc j)
    then have "j \<le> length months" using Cons.prems(2) by simp
    from Cons.IH[OF r this] obtain st_j where
      "performance_rows mk pd st' (take j months) = Inr (take j rows', st_j)"
      "performance_rows mk pd st_j (drop j months) = Inr (drop j rows', fin)"
      by blast
    then show ?thesis using s e Suc by simp
  qed
qed

text \<open>The step of month \<open>k\<close> of a run, between the values carried before and after it.\<close>

lemma performance_rows_step:
  assumes run: "performance_rows mk pd initial_tracking months = Inr (rows, fin)"
    and k: "k < length months"
  shows "month_step mk pd (tracking_after mk pd months k) (months ! k)
           = Inr (rows ! k, tracking_after mk pd months (Suc k))"
proof -
  from performance_rows_prefix[OF run, of k] k obtain st_k where
    a: "performance_rows mk pd initial_tracking (take k months) = Inr (take k rows, st_k)"
    and b: "performance_rows mk pd st_k (drop k months) = Inr (drop k rows, fin)"
    by auto
  have len: "length rows = length months" using run by (rule performance_rows_length)
  have d: "drop k months = months ! k # drop (Suc k) months"
    using k by (simp add: Cons_nth_drop_Suc)
  from b[unfolded d] obtain row st' rows' where
    s: "month_step mk pd st_k (months ! k) = Inr (row, st')"
    and e: "drop k rows = row # rows'"
    by (rule performance_rows_Cons)
  have row: "row = rows ! k" using e k len by (metis nth_via_drop)
  have t: "take (Suc k) months = take k months @ [months ! k]"
    using k by (simp add: take_Suc_conv_app_nth)
  have "performance_rows mk pd initial_tracking (take (Suc k) months)
          = Inr (take k rows @ [row], st')"
    using a s by (simp add: t performance_rows_snoc)
  then have "tracking_after mk pd months (Suc k) = st'"
    by (simp add: tracking_after_def)
  moreover have "tracking_after mk pd months k = st_k" using a by (simp add: tracking_after_def)
  ultimately show ?thesis using s row by simp
qed

lemma tracking_after_0 [simp]: "tracking_after mk pd months 0 = initial_tracking"
  by (simp add: tracking_after_def)

lemma cache_ok_after:
  assumes run: "performance_rows mk pd initial_tracking months = Inr (rows, fin)"
    and k: "k \<le> length months"
  shows "cache_ok mk (sp500_cache (tracking_after mk pd months k))"
  using k
proof (induction k)
  case 0
  then show ?case by (simp add: cache_ok_def initial_tracking_def)
next
  case (Suc j)
  then have j: "j < length months" by simp
  show ?case
    using month_step_benchmark(3)[OF performance_rows_step[OF run j]] Suc by simp
qed

lemma previous_avg_after:
  assumes run: "performance_rows mk pd initial_tracking months = Inr (rows, fin)"
    and k: "k < length months"
  shows "previous_avg_pct_gain_loss (tracking_after mk pd months (Suc k))
           = Some (avg_of mk pd (months ! k))"
  using month_step_facts(2)[OF performance_rows_step[OF run k]] .

lemma monthly_return_rows:
  assumes run: "performance_rows mk pd initial_tracking months = Inr (rows, fin)"
    and k: "k < length months"
  shows "monthly_return (rows ! k) =
           (if k = 0 then avg_of mk pd (months ! 0)
            else avg_of mk pd (months ! k) - avg_of mk pd (months ! (k - 1)))"
proof (cases k)
  case 0
  then show ?thesis
    using month_step_facts(1)[OF performance_rows_step[OF run k]]
    by (simp add: initial_tracking_def)
next
  case (Suc j)
  then have j: "j < length months" using k by simp
  show ?thesis
    using month_step_facts(1)[OF performance_rows_step[OF run k]]
      previous_avg_after[OF run j] Suc by simp
qed

lemma benchmark_rows:
  assumes run: "performance_rows mk pd initial_tracking months = Inr (rows, fin)"
    and k: "k < length months"
  shows "sp500_monthly_return (rows ! k) =
           price_ratio_return (previous_sp500_price (tracking_after mk pd months k))
             (sp500_price_of mk (months ! k))"
    and "previous_sp500_price (tracking_after mk pd months (Suc k)) =
           (case sp500_price_of mk (months ! k) of
              None \<Rightarrow> previous_sp500_price (tracking_after mk pd months k)
            | Some price \<Rightarrow>
                if price \<noteq> 0 then Some price
                else previous_sp500_price (tracking_after mk pd months k))"
    and "benchmark_factor (tracking_after mk pd months (Suc k))
           = benchmark_factor (tracking_after mk pd months k) * (1 + sp500_monthly_return (rows ! k))"
    and "benchmark_cumulative (rows ! k) = benchmark_factor (tracking_after mk pd months (Suc k)) - 1"
proof -
  note s = performance_rows_step[OF run k]
  have c: "cache_ok mk (sp500_cache (tracking_after mk pd months k))"
    using cache_ok_after[OF run, of k] k by simp
  show "sp500_monthly_return (rows ! k) =
           price_ratio_return (previous_sp500_price (tracking_after mk pd months k))
             (sp500_price_of mk (months ! k))"
    by (rule month_step_benchmark(1)[OF s c])
  show "previous_sp500_price (tracking_after mk pd months (Suc k)) =
           (case sp500_price_of mk (months ! k) of
              None \<Rightarrow> previous_sp500_price (tracking_after mk pd months k)
            | Some price \<Rightarrow>
                if price \<noteq> 0 then Some price
                else previous_sp500_price (tracking_after mk pd months k))"
    by (rule month_step_benchmark(2)[OF s c])
  show "benchmark_factor (tracking_after mk pd months (Suc k))
           = benchmark_factor (tracking_after mk pd months k) * (1 + sp500_monthly_return (rows ! k))"
    by (rule month_step_facts(4)[OF s])
  show "benchmark_cumulative (rows ! k) = benchmark_factor (tracking_after mk pd months (Suc k)) - 1"
    by (rule month_step_facts(6)[OF s])
qed

text \<open>The close carried into a month is the last close fetched before it.\<close>

lemma last_fetched_close_snoc:
  "last_fetched_close mk (months @ [ym]) =
     (case sp500_price_of mk ym of
        None \<Rightarrow> last_fetched_close mk months
      | Some price \<Rightarrow> if price \<noteq> 0 then Some price else last_fetched_close mk months)"
  by (simp add: last_fetched_close_def split: option.splits)

lemma previous_is_last_fetched:
  assumes run: "performance_rows mk pd initial_tracking months = Inr (rows, fin)"
    and k: "k \<le> length months"
  shows "previous_sp500_price (tracking_after mk pd months k)
           = last_fetched_close mk (take k months)"
  using k
proof (induction k)
  case 0
  then show ?case by (simp add: initial_tracking_def last_fetched_close_def)
next
  case (Suc j)
  then have j: "j < length months" by simp
  have t: "take (Suc j) months = take j months @ [months ! j]"
    using j by (simp add: take_Suc_conv_app_nth)
  show ?case
    using benchmark_rows(2)[OF run j] Suc j
    by (simp add: t last_fetched_close_snoc split: option.splits)
qed

lemma create_performance_analysis_run:
  assumes "create_performance_analysis mk pd = Inr rows"
  obtains fin where
    "performance_rows mk pd initial_tracking (get_month_range_from_transactions mk pd)
       = Inr (rows, fin)"
  using assms by (auto simp: create_performance_analysis_def split: sum.splits)

lemma holding_price_fresh:
  assumes "map_of cache symbol = None"
    and "target_of mk year month = (target_date, use_current_prices)"
  shows "fst (holding_price mk pd target_date use_current_prices cache symbol h)
           = price_at mk pd year month symbol h"
    and "fst ` set (snd (holding_price mk pd target_date use_current_prices cache symbol h))
           \<subseteq> insert symbol (fst ` set cache)"
  using assms
  by (auto simp: holding_price_def price_at_def Let_def AList.dom_update split: option.splits)

lemma value_holdings_gains:
  assumes "target_of mk year month = (target_date, use_current_prices)"
  shows "distinct (map fst hs) \<Longrightarrow> \<forall>s \<in> fst ` set hs. map_of cache s = None \<Longrightarrow>
    value_holdings mk pd target_date use_current_prices rates hs pv cache gl = Inr (pv', gl') \<Longrightarrow>
    gl' = gl @ map (gain_ratio mk pd year month)
                 (filter (\<lambda>sh. 0 < weighted_avg_cost (snd sh)) hs)"
proof (induction hs arbitrary: pv cache gl)
  case Nil
  then show ?case by simp
next
  case (Cons sh hs)
  obtain s h where sh: "sh = (s, h)" by (cases sh)
  obtain p cache' where hp:
    "holding_price mk pd target_date use_current_prices cache s h = (p, cache')"
    by (cases "holding_price mk pd target_date use_current_prices cache s h")
  have fresh: "map_of cache s = None" using Cons.prems(2) sh by simp
  have p: "p = price_at mk pd year month s h"
    using holding_price_fresh(1)[OF fresh assms, of pd h] hp by simp
  have keys: "fst ` set cache' \<subseteq> insert s (fst ` set cache)"
    using holding_price_fresh(2)[OF fresh assms, of pd h] hp by simp
  have d: "distinct (map fst hs)" and ns: "s \<notin> fst ` set hs"
    using Cons.prems(1) sh by auto
  have rest: "\<forall>s' \<in> fst ` set hs. map_of cache' s' = None"
  proof
    fix s' assume a: "s' \<in> fst ` set hs"
    then have "s' \<noteq> s" using ns by auto
    moreover have "s' \<notin> fst ` set cache"
      using Cons.prems(2) a by (auto simp: map_of_eq_None_iff)
    ultimately have "s' \<notin> fst ` set cache'" using keys by auto
    then show "map_of cache' s' = None" by (simp add: map_of_eq_None_iff)
  qed
  from Cons.prems(3) sh hp obtain price_usd where
    run: "value_holdings mk pd target_date use_current_prices rates hs
            (pv + total_shares h * price_usd) cache'
            (if weighted_avg_cost h > 0 then gl @ [(p - weighted_avg_cost h) / weighted_avg_cost h]
             else gl) = Inr (pv', gl')"
    by (auto split: sum.splits)
  show ?case
    using Cons.IH[OF d rest run] sh p by (simp add: gain_ratio_def)
qed

lemma distinct_holdings_at: "distinct (map fst (holdings_at pd target_date))"
  unfolding holdings_at_def process_transactions_def
  by (intro distinct_map_filter distinct_replay) simp

lemma compute_average:
  assumes "compute_portfolio_performance mk pd month year rates = Inr perf"
  shows "avg_pct_gain_loss perf = mean_gain_positive_cost mk pd year month"
proof -
  obtain target_date ucp where t: "target_of mk year month = (target_date, ucp)"
    by (cases "target_of mk year month")
  from assms t obtain pv gl where
    v: "value_holdings mk pd target_date ucp rates (holdings_at pd target_date) 0 [] [] = Inr (pv, gl)"
    and a: "avg_pct_gain_loss perf = (if gl \<noteq> [] then sum_list gl / real (length gl) else 0)"
    by (auto simp: compute_portfolio_performance_def Let_def split: sum.splits)
  have "gl = [] @ map (gain_ratio mk pd year month)
                 (filter (\<lambda>sh. 0 < weighted_avg_cost (snd sh)) (holdings_at pd target_date))"
    by (rule value_holdings_gains[OF t distinct_holdings_at _ v]) simp
  then show ?thesis
    using a t by (simp add: mean_gain_positive_cost_def held_at_def mean_def Let_def)
qed

lemmas performance_eval =
  create_performance_analysis_def get_month_range_from_transactions_def oldest_date_def
  months_from.simps month_step_def compute_portfolio_performance_def holdings_at_def
  target_of_def last_day_of_def holding_price_def sp500_lookup_def get_sp500_price_def
  initial_tracking_def convert_to_usd_def currency_code_def currency_map_def
  euro_sign_def pound_sign_def yen_sign_def static_exchange_rates_def

lemma sample_months:
  "get_month_range_from_transactions sample_market sample_portfolio
     = [(2024, 1), (2024, 2), (2024, 3)]"
  by (simp add: performance_eval sample_market_def sample_portfolio_def buy_def)

lemma month_step_perf:
  assumes "month_step mk pd st ym = Inr (row, st')"
  shows "\<exists>perf. compute_portfolio_performance mk pd (snd ym) (fst ym) (pd_exchange_rates pd)
                  = Inr perf"
  using assms by (cases ym) (auto simp: month_step_def split: sum.splits)

lemma avg_of_run:
  assumes run: "performance_rows mk pd initial_tracking months = Inr (rows, fin)"
    and k: "k < length months"
  shows "\<exists>perf. compute_portfolio_performance mk pd (snd (months ! k)) (fst (months ! k))
                  (pd_exchange_rates pd) = Inr perf
           \<and> avg_pct_gain_loss perf
               = mean_gain_positive_cost mk pd (fst (months ! k)) (snd (months ! k))
           \<and> avg_of mk pd (months ! k)
               = mean_gain_positive_cost mk pd (fst (months ! k)) (snd (months ! k))"
proof -
  from month_step_perf[OF performance_rows_step[OF run k]] obtain perf where
    p: "compute_portfolio_performance mk pd (snd (months ! k)) (fst (months ! k))
          (pd_exchange_rates pd) = Inr perf"
    by blast
  have "avg_of mk pd (months ! k) = avg_pct_gain_loss perf" using p by (simp add: avg_of_def)
  then show ?thesis using p compute_average[OF p] by simp
qed

lemma sample_run:
  "create_performance_analysis sample_market sample_portfolio = Inr sample_rows"
  by (simp add: performance_eval ledger_eval sample_market_def sample_portfolio_def
        sample_rows_def)

section \<open>Claim C7: the average gain and the monthly return\<close>

text \<open>
  Claim C7, as amended. For each month of the performance series, \<open>avg_pct_gain_loss\<close> is the
  unweighted arithmetic mean of \<open>(current_price - weighted_avg_cost) / weighted_avg_cost\<close> over
  the symbols held at the month's cutoff whose weighted average cost is positive, and 0 when
  there is no such symbol; \<open>monthly_return\<close> is that month's \<open>avg_pct_gain_loss\<close> minus the
  previous month's, and for the first month the \<open>avg_pct_gain_loss\<close> itself.
\<close>

theorem average_gain_and_monthly_return:
  assumes run: "create_performance_analysis mk pd = Inr rows"
    and months: "months = get_month_range_from_transactions mk pd"
    and k: "k < length months"
  shows "(\<exists>perf. compute_portfolio_performance mk pd (snd (months ! k)) (fst (months ! k))
                  (pd_exchange_rates pd) = Inr perf
           \<and> avg_pct_gain_loss perf
               = mean_gain_positive_cost mk pd (fst (months ! k)) (snd (months ! k)))
     \<and> monthly_return (rows ! k)
         = (if k = 0
            then mean_gain_positive_cost mk pd (fst (months ! 0)) (snd (months ! 0))
            else mean_gain_positive_cost mk pd (fst (months ! k)) (snd (months ! k))
                 - mean_gain_positive_cost mk pd (fst (months ! (k - 1))) (snd (months ! (k - 1))))"
proof -
  from run obtain fin where
    r: "performance_rows mk pd initial_tracking months = Inr (rows, fin)"
    unfolding months by (rule create_performance_analysis_run)
  note a = avg_of_run[OF r k]
  have m: "monthly_return (rows ! k) =
           (if k = 0 then avg_of mk pd (months ! 0)
            else avg_of mk pd (months ! k) - avg_of mk pd (months ! (k - 1)))"
    by (rule monthly_return_rows[OF r k])
  show ?thesis
  proof (cases k)
    case 0
    then show ?thesis using a m by auto
  next
    case (Suc j)
    then have "j < length months" using k by simp
    from avg_of_run[OF r this] show ?thesis using a m Suc by auto
  qed
qed

text \<open>The amended claim on February of the sample portfolio: 0.21 - 0.10.\<close>

theorem average_gain_witness:
  "create_performance_analysis sample_market sample_portfolio = Inr sample_rows
   \<and> [(2024, 1), (2024, 2), (2024, 3)]
       = get_month_range_from_transactions sample_market sample_portfolio
   \<and> (1::nat) < length [(2024 :: nat, 1 :: nat), (2024, 2), (2024, 3)]
   \<and> mean_gain_positive_cost sample_market sample_portfolio 2024 2 = 21 / 100
   \<and> mean_gain_positive_cost sample_market sample_portfolio 2024 1 = 1 / 10
   \<and> monthly_return (sample_rows ! 1)
       = mean_gain_positive_cost sample_market sample_portfolio 2024 2
         - mean_gain_positive_cost sample_market sample_portfolio 2024 1"
proof -
  let ?months = "[(2024 :: nat, 1 :: nat), (2024, 2), (2024, 3)]"
  have m: "?months = get_month_range_from_transactions sample_market sample_portfolio"
    by (simp add: sample_months)
  have k: "(1::nat) < length ?months" by simp
  have g: "mean_gain_positive_cost sample_market sample_portfolio 2024 2 = 21 / 100"
      "mean_gain_positive_cost sample_market sample_portfolio 2024 1 = 1 / 10"
    by (simp_all add: mean_gain_positive_cost_def held_at_def mean_def gain_ratio_def
          price_at_def performance_eval ledger_eval sample_market_def sample_portfolio_def)
  have "monthly_return (sample_rows ! 1)
       = mean_gain_positive_cost sample_market sample_portfolio 2024 2
         - mean_gain_positive_cost sample_market sample_portfolio 2024 1"
    using average_gain_and_monthly_return[OF sample_run m k] by simp
  then show ?thesis using sample_run m k g by (intro conjI)
qed

text \<open>
  The claim as first stated fails where a held symbol has no cost: with ten shares bought at
  100 and priced 150 and five shares received at no cost, two symbols are held and the code
  answers 1/2, the ratio of the first alone, where the mean over the two symbols held is 1/4
  (a ratio of cost 0 counting 0).
\<close>

theorem average_gain_counterexample:
  "map_sum id avg_pct_gain_loss
     (compute_portfolio_performance gift_market gift_portfolio 1 2024 static_exchange_rates)
     = Inr (1 / 2)
   \<and> map_sum id holdings_count
     (compute_portfolio_performance gift_market gift_portfolio 1 2024 static_exchange_rates)
     = Inr 2
   \<and> mean_gain_all_held gift_market gift_portfolio 2024 1 = 1 / 4"
  by (simp add: performance_eval ledger_eval gift_market_def gift_portfolio_def
        mean_gain_all_held_def held_at_def mean_def gain_ratio_def price_at_def)

section \<open>Claim C8: compounding\<close>

text \<open>
  Claim C8. In the rows of the performance series, the cumulative return of row \<open>n\<close> is the
  product of \<open>1 + monthly_return\<close> over the rows up to \<open>n\<close>, minus 1 (so the first cumulative
  return is the first monthly return); the benchmark cumulative return is compounded in the
  same way from the benchmark's monthly returns; and \<open>alpha\<close> is the difference of the two.
\<close>

theorem compounded_returns:
  assumes "create_performance_analysis mk pd = Inr rows" and "n < length rows"
  shows "cumulative_return (rows ! n) = (\<Prod>r \<leftarrow> take (Suc n) rows. 1 + monthly_return r) - 1
     \<and> benchmark_cumulative (rows ! n)
         = (\<Prod>r \<leftarrow> take (Suc n) rows. 1 + sp500_monthly_return r) - 1
     \<and> alpha (rows ! n) = cumulative_return (rows ! n) - benchmark_cumulative (rows ! n)
     \<and> cumulative_return (rows ! 0) = monthly_return (rows ! 0)"
proof -
  from assms(1) obtain fin where
    run: "performance_rows mk pd initial_tracking (get_month_range_from_transactions mk pd)
            = Inr (rows, fin)"
    by (rule create_performance_analysis_run)
  have z: "0 < length rows" using assms(2) by (cases rows) auto
  have "cumulative_return (rows ! 0) = (\<Prod>r \<leftarrow> take (Suc 0) rows. 1 + monthly_return r) - 1"
    using compounding_from[OF run z] by (simp add: initial_tracking_def)
  moreover have "take (Suc 0) rows = [rows ! 0]" using z by (cases rows) auto
  ultimately have first: "cumulative_return (rows ! 0) = monthly_return (rows ! 0)" by simp
  show ?thesis
    using compounding_from[OF run assms(2)] first by (simp add: initial_tracking_def)
qed

text \<open>The claim on the third row of the sample series.\<close>

theorem compounded_returns_witness:
  "create_performance_analysis sample_market sample_portfolio = Inr sample_rows
   \<and> (2::nat) < length sample_rows
   \<and> cumulative_return (sample_rows ! 2) = (1 + 1 / 10) * (1 + 11 / 100) * (1 + 29 / 100) - 1
   \<and> benchmark_cumulative (sample_rows ! 2) = (1 + 0) * (1 + 0) * (1 + 1 / 10) - 1
   \<and> alpha (sample_rows ! 2) = cumulative_return (sample_rows ! 2) - benchmark_cumulative (sample_rows ! 2)
   \<and> cumulative_return (sample_rows ! 0) = monthly_return (sample_rows ! 0)"
proof -
  have n: "(2::nat) < length sample_rows" by (simp add: sample_rows_def)
  have t: "take (Suc 2) sample_rows = sample_rows" by (simp add: sample_rows_def)
  have p: "(\<Prod>r \<leftarrow> sample_rows. 1 + monthly_return r)
             = (1 + 1 / 10) * (1 + 11 / 100) * (1 + 29 / 100)"
      "(\<Prod>r \<leftarrow> sample_rows. 1 + sp500_monthly_return r) = (1 + 0) * (1 + 0) * (1 + 1 / 10)"
    by (simp_all add: sample_rows_def)
  note c = compounded_returns[OF sample_run n, unfolded t p]
  show ?thesis using sample_run n c by (intro conjI) blast+
qed

section \<open>Claim C10: a month without a benchmark price\<close>

text \<open>
  Claim C10. The benchmark's monthly return is 0 in the first row. In every row it is the
  price-ratio return between the close carried from the earlier months and the month's close,
  and the close carried into a month is the last close fetched in the months before it: a
  month whose lookup answers a close (other than 0, which the code takes for no data) carries
  that close to the next month. For a month whose benchmark lookup answers no data the return
  is 0, the close carried to the next month is the one carried into this month, unchanged, and
  the benchmark's compounding factor is multiplied by exactly 1.
\<close>

theorem benchmark_missing_month:
  assumes run: "create_performance_analysis mk pd = Inr rows"
    and months: "months = get_month_range_from_transactions mk pd"
  shows "(months \<noteq> [] \<longrightarrow> sp500_monthly_return (rows ! 0) = 0)
     \<and> (\<forall>k < length months.
          sp500_monthly_return (rows ! k)
            = price_ratio_return (previous_sp500_price (tracking_after mk pd months k))
                (sp500_price_of mk (months ! k))
          \<and> previous_sp500_price (tracking_after mk pd months k)
              = last_fetched_close mk (take k months)
          \<and> (\<forall>price. sp500_price_of mk (months ! k) = Some price \<and> price \<noteq> 0 \<longrightarrow>
                 previous_sp500_price (tracking_after mk pd months (Suc k)) = Some price)
          \<and> (sp500_price_of mk (months ! k) = Some 0 \<longrightarrow>
               sp500_monthly_return (rows ! k) = 0
               \<and> previous_sp500_price (tracking_after mk pd months (Suc k))
                   = previous_sp500_price (tracking_after mk pd months k))
          \<and> (sp500_price_of mk (months ! k) = None \<longrightarrow>
               sp500_monthly_return (rows ! k) = 0
               \<and> previous_sp500_price (tracking_after mk pd months (Suc k))
                   = previous_sp500_price (tracking_after mk pd months k)
               \<and> benchmark_factor (tracking_after mk pd months (Suc k))
                   = benchmark_factor (tracking_after mk pd months k) * 1
               \<and> benchmark_cumulative (rows ! k)
                   = benchmark_factor (tracking_after mk pd months k) - 1))"
proof -
  from run obtain fin where
    r: "performance_rows mk pd initial_tracking months = Inr (rows, fin)"
    unfolding months by (rule create_performance_analysis_run)
  have first: "months \<noteq> [] \<longrightarrow> sp500_monthly_return (rows ! 0) = 0"
  proof
    assume "months \<noteq> []"
    then have "0 < length months" by simp
    from benchmark_rows(1)[OF r this] show "sp500_monthly_return (rows ! 0) = 0"
      by (simp add: initial_tracking_def price_ratio_return_def)
  qed
  have each: "sp500_monthly_return (rows ! k)
            = price_ratio_return (previous_sp500_price (tracking_after mk pd months k))
                (sp500_price_of mk (months ! k))
          \<and> previous_sp500_price (tracking_after mk pd months k)
              = last_fetched_close mk (take k months)
          \<and> (\<forall>price. sp500_price_of mk (months ! k) = Some price \<and> price \<noteq> 0 \<longrightarrow>
                 previous_sp500_price (tracking_after mk pd months (Suc k)) = Some price)
          \<and> (sp500_price_of mk (months ! k) = Some 0 \<longrightarrow>
               sp500_monthly_return (rows ! k) = 0
               \<and> previous_sp500_price (tracking_after mk pd months (Suc k))
                   = previous_sp500_price (tracking_after mk pd months k))
          \<and> (sp500_price_of mk (months ! k) = None \<longrightarrow>
               sp500_monthly_return (rows ! k) = 0
               \<and> previous_sp500_price (tracking_after mk pd months (Suc k))
                   = previous_sp500_price (tracking_after mk pd months k)
               \<and> benchmark_factor (tracking_after mk pd months (Suc k))
                   = benchmark_factor (tracking_after mk pd months k) * 1
               \<and> benchmark_cumulative (rows ! k)
                   = benchmark_factor (tracking_after mk pd months k) - 1)"
    if k: "k < length months" for k
  proof -
    note b = benchmark_rows[OF r k]
    have last: "previous_sp500_price (tracking_after mk pd months k)
                  = last_fetched_close mk (take k months)"
      using previous_is_last_fetched[OF r, of k] k by simp
    have zero: "sp500_monthly_return (rows ! k) = 0" if "sp500_price_of mk (months ! k) = None"
      using b(1) that by (simp add: price_ratio_return_def split: option.splits)
    have zero': "sp500_monthly_return (rows ! k) = 0" if "sp500_price_of mk (months ! k) = Some 0"
      using b(1) that by (simp add: price_ratio_return_def split: option.splits)
    show ?thesis using b zero zero' last by simp
  qed
  show ?thesis using first each by blast
qed

text \<open>
  The claim on the sample series, where February has no benchmark close: the close of January,
  4000, is carried over February and is the baseline of March's return.
\<close>

theorem benchmark_missing_month_witness:
  "create_performance_analysis sample_market sample_portfolio = Inr sample_rows
   \<and> sp500_price_of sample_market ([(2024, 1), (2024, 2), (2024, 3)] ! 0) = Some 4000
   \<and> sp500_price_of sample_market ([(2024, 1), (2024, 2), (2024, 3)] ! 1) = None
   \<and> sp500_monthly_return (sample_rows ! 0) = 0
   \<and> sp500_monthly_return (sample_rows ! 1) = 0
   \<and> previous_sp500_price
        (tracking_after sample_market sample_portfolio [(2024, 1), (2024, 2), (2024, 3)] (Suc 0))
       = Some 4000
   \<and> previous_sp500_price
        (tracking_after sample_market sample_portfolio [(2024, 1), (2024, 2), (2024, 3)] (Suc 1))
       = previous_sp500_price
           (tracking_after sample_market sample_portfolio [(2024, 1), (2024, 2), (2024, 3)] 1)
   \<and> benchmark_cumulative (sample_rows ! 1)
       = benchmark_factor
           (tracking_after sample_market sample_portfolio [(2024, 1), (2024, 2), (2024, 3)] 1) - 1
   \<and> last_fetched_close sample_market (take 2 [(2024, 1), (2024, 2), (2024, 3)]) = Some 4000
   \<and> previous_sp500_price
        (tracking_after sample_market sample_portfolio [(2024, 1), (2024, 2), (2024, 3)] 2)
       = last_fetched_close sample_market (take 2 [(2024, 1), (2024, 2), (2024, 3)])
   \<and> sp500_monthly_return (sample_rows ! 2) = (4400 - 4000) / 4000"
proof -
  let ?months = "[(2024 :: nat, 1 :: nat), (2024, 2), (2024, 3)]"
  have m: "?months = get_month_range_from_transactions sample_market sample_portfolio"
    by (simp add: sample_months)
  have jan: "sp500_price_of sample_market (?months ! 0) = Some 4000"
    by (simp add: sp500_price_of_def get_sp500_price_def target_of_def last_day_of_def
          sample_market_def)
  have none: "sp500_price_of sample_market (?months ! 1) = None"
    by (simp add: sp500_price_of_def get_sp500_price_def target_of_def last_day_of_def
          sample_market_def)
  have lfc: "last_fetched_close sample_market (take 2 ?months) = Some 4000"
    by (simp add: last_fetched_close_def sp500_price_of_def get_sp500_price_def target_of_def
          last_day_of_def sample_market_def)
  have last: "sp500_monthly_return (sample_rows ! 2) = (4400 - 4000) / 4000"
    by (simp add: sample_rows_def)
  note b = benchmark_missing_month[OF sample_run m]
  have ne: "?months \<noteq> []" and k0: "(0::nat) < length ?months"
    and k1: "(1::nat) < length ?months" and k2: "(2::nat) < length ?months"
    by simp_all
  have nz: "(4000::real) \<noteq> 0" by simp
  have first: "sp500_monthly_return (sample_rows ! 0) = 0" using b ne by blast
  have fetched: "previous_sp500_price
                   (tracking_after sample_market sample_portfolio ?months (Suc 0)) = Some 4000"
    using b k0 jan nz by blast
  have feb: "sp500_monthly_return (sample_rows ! 1) = 0
      \<and> previous_sp500_price (tracking_after sample_market sample_portfolio ?months (Suc 1))
          = previous_sp500_price (tracking_after sample_market sample_portfolio ?months 1)
      \<and> benchmark_cumulative (sample_rows ! 1)
          = benchmark_factor (tracking_after sample_market sample_portfolio ?months 1) - 1"
    using b k1 none by blast
  have carried: "previous_sp500_price (tracking_after sample_market sample_portfolio ?months 2)
                   = last_fetched_close sample_market (take 2 ?months)"
    using b k2 by blast
  show ?thesis
    using sample_run jan none first feb fetched lfc carried last by (intro conjI) blast+
qed

end
